theory Spec2Isabelle
  imports Complex_Main "HOL-Library.AList"
begin

section \<open>The sandbox manager of agent-studio (sandbox/manager.py)\<close>

text \<open>
  The module keeps one \<^verbatim>\<open>WorkspaceSession\<close> per workspace id in a dict, creates the
  sandbox of a workspace on its first request, runs code in it (or in a subprocess when
  the workspace has no sandbox), and closes sessions that were idle for too long.

  The embedding is shallow. A Python function becomes a state transformer that returns
  either the raised exception (\<open>Inl\<close>) or the returned value (\<open>Inr\<close>), with the state
  after the call in both cases. The state holds the two attributes of the manager, the
  outside world (an abstract type \<open>'w\<close>) and the sequence of outward actions performed so
  far: log records and calls to the sandbox library, to \<^verbatim>\<open>subprocess.run\<close>, to
  \<^verbatim>\<open>asyncio.sleep\<close> and to \<^verbatim>\<open>Task.cancel\<close>. The library, the subprocess, the clock and the file system are the
  fields of a record \<open>env\<close> of functions on the world; every theorem holds for every such
  record, so for every behaviour of the outside.

  Exceptions are the instances of Python's \<^verbatim>\<open>Exception\<close>: these are the failures the
  library and \<^verbatim>\<open>subprocess\<close> report. \<^verbatim>\<open>KeyboardInterrupt\<close> and \<^verbatim>\<open>SystemExit\<close> end the
  process and are not part of the model. A time stamp (\<^verbatim>\<open>time.time()\<close>, a float) is the real
  number the float stands for. The difference of two floats is rounded, so it is not the
  difference of the reals: it is a function \<open>float_sub\<close> of the outside, about which nothing
  is assumed. Comparing a float with the integer \<^verbatim>\<open>IDLE_TIMEOUT\<close> is exact. The dict is an
  association list in insertion order, as Python iterates it.
\<close>

subsection \<open>Values\<close>

text \<open>An exception the outside raises carries the text \<^verbatim>\<open>str(e)\<close> gives.\<close>

datatype exn = TimeoutExpired string | KeyError string | Exception string

fun str_exn :: "exn \<Rightarrow> string" where
  "str_exn (TimeoutExpired m) = m"
| "str_exn (KeyError m) = m"
| "str_exn (Exception m) = m"

text \<open>The sandbox object is known by its identity only; as an object it is truthy.\<close>

type_synonym handle = nat

text \<open>What \<^verbatim>\<open>session.run\<close> returns: the fields \<^verbatim>\<open>execute\<close> reads, each but the exit code
  possibly \<^verbatim>\<open>None\<close>.\<close>

record console_output =
  exit_code :: int
  out_stdout :: "string option"
  out_stderr :: "string option"
  images :: "string list option"

text \<open>What \<^verbatim>\<open>subprocess.run(..., capture_output=True, text=True)\<close> returns.\<close>

record completed_process =
  returncode :: int
  cp_stdout :: string
  cp_stderr :: string

text \<open>The dict \<^verbatim>\<open>execute\<close> returns, and the elements of its \<^verbatim>\<open>"artifacts"\<close>.\<close>

record artifact =
  artifact_type :: string
  artifact_data :: string

record execution_result =
  success :: bool
  stdout :: string
  stderr :: string
  artifacts :: "artifact list"

datatype level = INFO | WARNING | ERROR

datatype event =
    Ev_log level string
  | Ev_init
  | Ev_enter handle
  | Ev_run handle string "int option"
  | Ev_exit handle
  | Ev_subprocess "string list" int string
  | Ev_sleep nat
  | Ev_cancel

text \<open>\<^verbatim>\<open>asyncio.Task\<close>: the model keeps whether \<^verbatim>\<open>cancel()\<close> was called on it.\<close>

datatype task = Task (cancel_requested: bool)

record workspace_session =
  workspace_id :: string
  session :: "handle option"
  created_at :: real
  last_used :: real

record 'w state =
  sessions :: "(string \<times> workspace_session) list"
  cleanup_task :: "task option"
  world :: 'w
  trace :: "event list"

text \<open>The outside. \<open>float_sub a b\<close> is the float \<^verbatim>\<open>a - b\<close> of two floats,
  \<open>file_dir\<close> is \<^verbatim>\<open>os.path.dirname(__file__)\<close>, \<open>sandbox_init\<close> the constructor
  \<^verbatim>\<open>InteractiveSandboxSession(lang="python", keep_template=True, verbose=False)\<close>,
  \<open>sandbox_run h code timeout\<close> the call \<^verbatim>\<open>h.run(code)\<close> or \<^verbatim>\<open>h.run(code, timeout=t)\<close>, and
  \<open>subprocess_run args timeout cwd\<close> the call of \<^verbatim>\<open>subprocess.run\<close>.\<close>

record 'w env =
  LLM_SANDBOX_AVAILABLE :: bool
  file_dir :: string
  time_time :: "'w \<Rightarrow> real \<times> 'w"
  float_sub :: "real \<Rightarrow> real \<Rightarrow> real"
  asyncio_sleep :: "nat \<Rightarrow> 'w \<Rightarrow> 'w"
  sandbox_init :: "'w \<Rightarrow> (exn + handle) \<times> 'w"
  sandbox_enter :: "handle \<Rightarrow> 'w \<Rightarrow> (exn + unit) \<times> 'w"
  sandbox_run :: "handle \<Rightarrow> string \<Rightarrow> int option \<Rightarrow> 'w \<Rightarrow> (exn + console_output) \<times> 'w"
  sandbox_exit :: "handle \<Rightarrow> 'w \<Rightarrow> (exn + unit) \<times> 'w"
  os_path_exists :: "string \<Rightarrow> 'w \<Rightarrow> bool"
  subprocess_run :: "string list \<Rightarrow> int \<Rightarrow> string \<Rightarrow> 'w \<Rightarrow> (exn + completed_process) \<times> 'w"

subsection \<open>Configuration\<close>

definition IDLE_TIMEOUT :: real where
  "IDLE_TIMEOUT = 30 * 60"

definition EXECUTION_TIMEOUT :: int where
  "EXECUTION_TIMEOUT = 60"

definition DEFAULT_LIBRARIES :: "string list" where
  "DEFAULT_LIBRARIES =
     [''pandas'', ''numpy'', ''matplotlib'', ''pypdf'', ''pdfplumber'', ''openpyxl'', ''requests'']"

subsection \<open>Strings\<close>

text \<open>\<^verbatim>\<open>str(n)\<close> of an int, as an f-string formats it.\<close>

definition digit_char :: "nat \<Rightarrow> char" where
  "digit_char d = ''0123456789'' ! d"

function str_nat :: "nat \<Rightarrow> string" where
  "str_nat n = (if n < 10 then [digit_char n] else str_nat (n div 10) @ [digit_char (n mod 10)])"
  by pat_completeness auto
termination
  by (relation "measure (\<lambda>n. n)") auto

definition str_int :: "int \<Rightarrow> string" where
  "str_int i = (if i < 0 then CHR ''-'' # str_nat (nat (- i)) else str_nat (nat i))"

text \<open>\<^verbatim>\<open>lib.replace('-', '_')\<close>\<close>

definition replace_dash :: "string \<Rightarrow> string" where
  "replace_dash lib = map (\<lambda>c. if c = CHR ''-'' then CHR ''_'' else c) lib"

text \<open>\<^verbatim>\<open>os.path.join\<close> on POSIX, for two components and for a list of them.\<close>

definition os_path_join2 :: "string \<Rightarrow> string \<Rightarrow> string" where
  "os_path_join2 a b =
     (if b \<noteq> [] \<and> hd b = CHR ''/'' then b
      else if a = [] \<or> last a = CHR ''/'' then a @ b
      else a @ ''/'' @ b)"

definition os_path_join :: "string \<Rightarrow> string list \<Rightarrow> string" where
  "os_path_join a bs = foldl os_path_join2 a bs"

subsection \<open>Raising, sequencing and catching\<close>

type_synonym ('a, 'w) prog = "'w state \<Rightarrow> (exn + 'a) \<times> 'w state"

definition retP :: "'a \<Rightarrow> ('a, 'w) prog" where
  "retP x = (\<lambda>s. (Inr x, s))"

definition bindP :: "('a, 'w) prog \<Rightarrow> ('a \<Rightarrow> ('b, 'w) prog) \<Rightarrow> ('b, 'w) prog" where
  "bindP m f = (\<lambda>s. case m s of (Inl e, s') \<Rightarrow> (Inl e, s') | (Inr x, s') \<Rightarrow> f x s')"

text \<open>\<^verbatim>\<open>try: m  except Exception as e: h\<close> (and the bare \<^verbatim>\<open>except:\<close>): the handler runs in the
  state the body left.\<close>

definition tryP :: "('a, 'w) prog \<Rightarrow> (exn \<Rightarrow> ('a, 'w) prog) \<Rightarrow> ('a, 'w) prog" where
  "tryP m h = (\<lambda>s. case m s of (Inl e, s') \<Rightarrow> h e s' | (Inr x, s') \<Rightarrow> (Inr x, s'))"

subsection \<open>Outward actions\<close>

definition logger :: "level \<Rightarrow> string \<Rightarrow> (unit, 'w) prog" where
  "logger lvl msg = (\<lambda>s. (Inr (), s\<lparr>trace := trace s @ [Ev_log lvl msg]\<rparr>))"

definition time_now :: "'w env \<Rightarrow> (real, 'w) prog" where
  "time_now env = (\<lambda>s. case time_time env (world s) of (t, w) \<Rightarrow> (Inr t, s\<lparr>world := w\<rparr>))"

definition ext_call :: "event \<Rightarrow> ('w \<Rightarrow> (exn + 'a) \<times> 'w) \<Rightarrow> ('a, 'w) prog" where
  "ext_call ev f =
     (\<lambda>s. case f (world s) of (r, w) \<Rightarrow> (r, s\<lparr>world := w, trace := trace s @ [ev]\<rparr>))"

definition run_in :: "'w env \<Rightarrow> handle \<Rightarrow> string \<Rightarrow> int option \<Rightarrow> (console_output, 'w) prog" where
  "run_in env h code t = ext_call (Ev_run h code t) (sandbox_run env h code t)"

definition sleep_for :: "'w env \<Rightarrow> nat \<Rightarrow> (unit, 'w) prog" where
  "sleep_for env d =
     (\<lambda>s. (Inr (), s\<lparr>world := asyncio_sleep env d (world s), trace := trace s @ [Ev_sleep d]\<rparr>))"

subsection \<open>The dict \<^verbatim>\<open>self.sessions\<close>\<close>

text \<open>\<^verbatim>\<open>self.sessions[k]\<close>, \<^verbatim>\<open>self.sessions[k] = ws\<close> and \<^verbatim>\<open>del self.sessions[k]\<close>; reading and
  deleting an absent key raise \<^verbatim>\<open>KeyError\<close>. The \<^verbatim>\<open>KeyError\<close> of the dict is kept with the key
  itself, where Python's text of it is the key in quotes; no handler of the module is
  around these two statements, so the text is never read.\<close>

definition getitem :: "string \<Rightarrow> (workspace_session, 'w) prog" where
  "getitem k = (\<lambda>s. case map_of (sessions s) k of
                      None \<Rightarrow> (Inl (KeyError k), s)
                    | Some ws \<Rightarrow> (Inr ws, s))"

definition setitem :: "string \<Rightarrow> workspace_session \<Rightarrow> (unit, 'w) prog" where
  "setitem k ws = (\<lambda>s. (Inr (), s\<lparr>sessions := AList.update k ws (sessions s)\<rparr>))"

definition delitem :: "string \<Rightarrow> (unit, 'w) prog" where
  "delitem k = (\<lambda>s. case map_of (sessions s) k of
                      None \<Rightarrow> (Inl (KeyError k), s)
                    | Some ws \<Rightarrow> (Inr (), s\<lparr>sessions := AList.delete k (sessions s)\<rparr>))"

subsection \<open>\<^verbatim>\<open>WorkspaceSession\<close>\<close>

text \<open>The dataclass constructor: both time stamps are default factories, called in the order
  of the fields.\<close>

definition new_workspace_session :: "'w env \<Rightarrow> string \<Rightarrow> (workspace_session, 'w) prog" where
  "new_workspace_session env k =
     bindP (time_now env) (\<lambda>c.
     bindP (time_now env) (\<lambda>l.
     retP \<lparr>workspace_id = k, session = None, created_at = c, last_used = l\<rparr>))"

text \<open>\<^verbatim>\<open>time.time() - self.last_used > IDLE_TIMEOUT\<close>: the difference is the one of two floats.\<close>

definition is_expired :: "'w env \<Rightarrow> workspace_session \<Rightarrow> (bool, 'w) prog" where
  "is_expired env ws =
     bindP (time_now env) (\<lambda>t. retP (float_sub env t (last_used ws) > IDLE_TIMEOUT))"

text \<open>\<^verbatim>\<open>touch\<close> changes the object; where the object is the one the dict holds under \<open>k\<close>, the
  caller stores the changed record back under \<open>k\<close> (\<open>touch_at\<close>).\<close>

definition touch :: "'w env \<Rightarrow> workspace_session \<Rightarrow> (workspace_session, 'w) prog" where
  "touch env ws = bindP (time_now env) (\<lambda>t. retP (ws\<lparr>last_used := t\<rparr>))"

definition touch_at :: "'w env \<Rightarrow> string \<Rightarrow> workspace_session \<Rightarrow> (workspace_session, 'w) prog" where
  "touch_at env k ws = bindP (touch env ws) (\<lambda>ws'. bindP (setitem k ws') (\<lambda>_. retP ws'))"

subsection \<open>\<^verbatim>\<open>SandboxManager\<close>\<close>

definition init_state :: "'w \<Rightarrow> 'w state" where
  "init_state w = \<lparr>sessions = [], cleanup_task = None, world = w, trace = []\<rparr>"

definition start :: "(unit, 'w) prog" where
  "start =
     bindP (\<lambda>s. (Inr (), s\<lparr>cleanup_task := Some (Task False)\<rparr>)) (\<lambda>_.
     logger INFO ''Sandbox manager started'')"

text \<open>\<^verbatim>\<open>_close_session\<close>, and the loop of \<^verbatim>\<open>stop\<close> over the sessions.\<close>

definition close_session :: "'w env \<Rightarrow> workspace_session \<Rightarrow> (unit, 'w) prog" where
  "close_session env ws =
     (case session ws of
        None \<Rightarrow> retP ()
      | Some h \<Rightarrow>
          tryP (ext_call (Ev_exit h) (sandbox_exit env h))
               (\<lambda>e. logger ERROR (''Error closing session '' @ workspace_id ws @ '': '' @ str_exn e)))"

fun close_all :: "'w env \<Rightarrow> workspace_session list \<Rightarrow> (unit, 'w) prog" where
  "close_all env [] = retP ()"
| "close_all env (ws # wss) = bindP (close_session env ws) (\<lambda>_. close_all env wss)"

definition cancel_cleanup_task :: "(unit, 'w) prog" where
  "cancel_cleanup_task =
     (\<lambda>s. case cleanup_task s of
             None \<Rightarrow> (Inr (), s)
           | Some t \<Rightarrow>
               (Inr (), s\<lparr>cleanup_task := Some (Task True), trace := trace s @ [Ev_cancel]\<rparr>))"

definition stop :: "'w env \<Rightarrow> (unit, 'w) prog" where
  "stop env =
     bindP cancel_cleanup_task (\<lambda>_.
     bindP (\<lambda>s. close_all env (map snd (sessions s)) s) (\<lambda>_.
     bindP (\<lambda>s. (Inr (), s\<lparr>sessions := []\<rparr>)) (\<lambda>_.
     logger INFO ''Sandbox manager stopped'')))"

text \<open>The list comprehension of \<^verbatim>\<open>_cleanup_loop\<close> and its \<^verbatim>\<open>for\<close> loop.\<close>

fun expired_ids :: "'w env \<Rightarrow> (string \<times> workspace_session) list \<Rightarrow> (string list, 'w) prog" where
  "expired_ids env [] = retP []"
| "expired_ids env ((k, ws) # items) =
     bindP (is_expired env ws) (\<lambda>b.
     bindP (expired_ids env items) (\<lambda>rest.
     retP (if b then k # rest else rest)))"

fun cleanup_expired :: "'w env \<Rightarrow> string list \<Rightarrow> (unit, 'w) prog" where
  "cleanup_expired env [] = retP ()"
| "cleanup_expired env (k # ks) =
     bindP (logger INFO (''Cleaning up expired session: '' @ k)) (\<lambda>_.
     bindP (getitem k) (\<lambda>ws.
     bindP (close_session env ws) (\<lambda>_.
     bindP (delitem k) (\<lambda>_.
     cleanup_expired env ks))))"

text \<open>One turn of the \<^verbatim>\<open>while True\<close> loop, and the loop for as many turns as the process
  lives (the loop has no exit of its own).\<close>

definition cleanup_iteration :: "'w env \<Rightarrow> (unit, 'w) prog" where
  "cleanup_iteration env =
     bindP (sleep_for env 60) (\<lambda>_.
     bindP (\<lambda>s. expired_ids env (sessions s) s) (\<lambda>expired.
     cleanup_expired env expired))"

fun cleanup_loop :: "'w env \<Rightarrow> nat \<Rightarrow> (unit, 'w) prog" where
  "cleanup_loop env 0 = retP ()"
| "cleanup_loop env (Suc n) = bindP (cleanup_iteration env) (\<lambda>_. cleanup_loop env n)"

text \<open>The warm-up loop over the libraries.\<close>

definition preinstall_lib :: "'w env \<Rightarrow> handle \<Rightarrow> string \<Rightarrow> (unit, 'w) prog" where
  "preinstall_lib env h lib =
     tryP (bindP (run_in env h (''import '' @ replace_dash lib) None) (\<lambda>_. retP ()))
          (\<lambda>_. bindP (run_in env h (''!pip install -q '' @ lib) None) (\<lambda>_. retP ()))"

fun preinstall :: "'w env \<Rightarrow> handle \<Rightarrow> string list \<Rightarrow> (unit, 'w) prog" where
  "preinstall env h [] = retP ()"
| "preinstall env h (lib # libs) = bindP (preinstall_lib env h lib) (\<lambda>_. preinstall env h libs)"

text \<open>The body of the \<^verbatim>\<open>try\<close> of \<^verbatim>\<open>get_or_create_session\<close>; it assigns \<^verbatim>\<open>ws.session\<close> only.\<close>

definition create_sandbox :: "'w env \<Rightarrow> string \<Rightarrow> workspace_session \<Rightarrow> (workspace_session, 'w) prog" where
  "create_sandbox env k ws =
     bindP (ext_call Ev_init (sandbox_init env)) (\<lambda>h.
     bindP (ext_call (Ev_enter h) (sandbox_enter env h)) (\<lambda>_.
     bindP (preinstall env h DEFAULT_LIBRARIES) (\<lambda>_.
     bindP (logger INFO (''Session created for workspace: '' @ k)) (\<lambda>_.
     retP (ws\<lparr>session := Some h\<rparr>)))))"

text \<open>The first two statements of the creating branch: the log record and the new object.\<close>

definition new_session_start :: "'w env \<Rightarrow> string \<Rightarrow> (workspace_session, 'w) prog" where
  "new_session_start env k =
     bindP (logger INFO (''Creating new sandbox session for workspace: '' @ k)) (\<lambda>_.
     new_workspace_session env k)"

definition get_or_create_session :: "'w env \<Rightarrow> string \<Rightarrow> (workspace_session, 'w) prog" where
  "get_or_create_session env k =
     (\<lambda>s. case map_of (sessions s) k of
             Some ws \<Rightarrow> touch_at env k ws s
           | None \<Rightarrow>
               bindP (new_session_start env k) (\<lambda>ws.
               bindP (if LLM_SANDBOX_AVAILABLE env
                      then tryP (create_sandbox env k ws)
                             (\<lambda>e. bindP (logger ERROR (''Failed to create sandbox session: '' @ str_exn e)) (\<lambda>_.
                                   retP (ws\<lparr>session := None\<rparr>)))
                      else retP ws) (\<lambda>ws'.
               bindP (setitem k ws') (\<lambda>_.
               retP ws'))) s)"

text \<open>The interpreter of the subprocess branch of \<^verbatim>\<open>execute\<close>: the one of the virtual
  environment beside the module if that file exists, the system's otherwise.\<close>

definition venv_python :: "'w env \<Rightarrow> 'w \<Rightarrow> string" where
  "venv_python env w =
     (let p = os_path_join (file_dir env) [''.venv'', ''bin'', ''python'']
      in if os_path_exists env p w then p else ''python3'')"

text \<open>The four dicts \<^verbatim>\<open>execute\<close> returns: after \<^verbatim>\<open>TimeoutExpired\<close>, after any other exception,
  after a run in the sandbox (\<^verbatim>\<open>x or ""\<close> and \<^verbatim>\<open>x or []\<close> are \<open>or_empty\<close>), and after a
  completed subprocess.\<close>

definition timeout_result :: "int \<Rightarrow> execution_result" where
  "timeout_result timeout =
     \<lparr>success = False, stdout = [],
      stderr = ''Execution timed out after '' @ str_int timeout @ '' seconds'',
      artifacts = []\<rparr>"

definition error_result :: "exn \<Rightarrow> execution_result" where
  "error_result e = \<lparr>success = False, stdout = [], stderr = str_exn e, artifacts = []\<rparr>"

definition or_empty :: "'a list option \<Rightarrow> 'a list" where
  "or_empty x = (case x of None \<Rightarrow> [] | Some v \<Rightarrow> v)"

definition sandbox_result :: "console_output \<Rightarrow> execution_result" where
  "sandbox_result r =
     \<lparr>success = (exit_code r = 0),
      stdout = or_empty (out_stdout r),
      stderr = or_empty (out_stderr r),
      artifacts = map (\<lambda>img. \<lparr>artifact_type = ''image'', artifact_data = img\<rparr>) (or_empty (images r))\<rparr>"

definition subprocess_result :: "completed_process \<Rightarrow> execution_result" where
  "subprocess_result r =
     \<lparr>success = (returncode r = 0), stdout = cp_stdout r, stderr = cp_stderr r, artifacts = []\<rparr>"

text \<open>The branch of \<^verbatim>\<open>execute\<close> for a session without sandbox, and \<^verbatim>\<open>execute\<close>. The
  \<^verbatim>\<open>ws.touch()\<close> after the run changes the object the dict holds under the workspace id.\<close>

definition fallback :: "'w env \<Rightarrow> string \<Rightarrow> int \<Rightarrow> (execution_result, 'w) prog" where
  "fallback env code timeout =
     bindP (logger WARNING ''No sandbox available, using subprocess fallback'') (\<lambda>_.
     (\<lambda>s. let py = venv_python env (world s); args = [py, ''-c'', code]
          in tryP (bindP (ext_call (Ev_subprocess args timeout (file_dir env))
                                   (subprocess_run env args timeout (file_dir env)))
                         (\<lambda>r. retP (subprocess_result r)))
                  (\<lambda>e. case e of
                          TimeoutExpired m \<Rightarrow> retP (timeout_result timeout)
                        | _ \<Rightarrow> retP (error_result e)) s))"

definition execute :: "'w env \<Rightarrow> string \<Rightarrow> string \<Rightarrow> int \<Rightarrow> (execution_result, 'w) prog" where
  "execute env k code timeout =
     bindP (get_or_create_session env k) (\<lambda>ws.
       case session ws of
         None \<Rightarrow> fallback env code timeout
       | Some h \<Rightarrow>
           tryP (bindP (run_in env h code (Some timeout)) (\<lambda>r.
                 bindP (touch_at env k ws) (\<lambda>_.
                 retP (sandbox_result r))))
                (\<lambda>e. bindP (logger ERROR (''Execution error in '' @ k @ '': '' @ str_exn e)) (\<lambda>_.
                      retP (error_result e))))"

definition destroy_session :: "'w env \<Rightarrow> string \<Rightarrow> (unit, 'w) prog" where
  "destroy_session env k =
     (\<lambda>s. if map_of (sessions s) k \<noteq> None
          then bindP (getitem k) (\<lambda>ws.
               bindP (close_session env ws) (\<lambda>_.
               bindP (delitem k) (\<lambda>_.
               logger INFO (''Destroyed session for workspace: '' @ k)))) s
          else (Inr (), s))"

subsection \<open>The states of a running manager\<close>

text \<open>The manager lives on one asyncio event loop, and no method body has a point where it
  hands control back to the loop: the sandbox and the subprocess are called synchronously,
  and the only \<^verbatim>\<open>await\<close> that suspends is the \<^verbatim>\<open>asyncio.sleep\<close> between two turns of the cleanup
  loop. So the states the manager is in between any two pieces of work are those reached
  from \<^verbatim>\<open>__init__\<close> by calls of its methods and turns of the cleanup loop, in any order and
  with any arguments; requests that arrive together are served one after the other.\<close>

inductive reachable :: "'w env \<Rightarrow> 'w state \<Rightarrow> bool" for env :: "'w env" where
  created: "reachable env (init_state w)"
| started: "reachable env s \<Longrightarrow> reachable env (snd (start s))"
| stopped: "reachable env s \<Longrightarrow> reachable env (snd (stop env s))"
| cleaned: "reachable env s \<Longrightarrow> reachable env (snd (cleanup_iteration env s))"
| requested: "reachable env s \<Longrightarrow> reachable env (snd (get_or_create_session env k s))"
| executed: "reachable env s \<Longrightarrow> reachable env (snd (execute env k code timeout s))"
| destroyed: "reachable env s \<Longrightarrow> reachable env (snd (destroy_session env k s))"

subsection \<open>Reading the state\<close>

text \<open>The \<^verbatim>\<open>__exit__\<close> calls among a sequence of actions, and the sandboxes a list of sessions
  holds, in the order of the list.\<close>

fun is_exit :: "event \<Rightarrow> bool" where
  "is_exit (Ev_exit h) = True"
| "is_exit ev = False"

fun open_handles :: "workspace_session list \<Rightarrow> handle list" where
  "open_handles [] = []"
| "open_handles (ws # wss) =
     (case session ws of None \<Rightarrow> open_handles wss | Some h \<Rightarrow> h # open_handles wss)"

text \<open>The dict is well formed: no key twice, and every session under its own workspace id.\<close>

definition keyed :: "(string \<times> workspace_session) list \<Rightarrow> bool" where
  "keyed d = (distinct (map fst d) \<and> (\<forall>p\<in>set d. workspace_id (snd p) = fst p))"

subsection \<open>Concrete outsides\<close>

text \<open>Small outsides on which the functions are evaluated. The world is a clock in seconds
  that only \<^verbatim>\<open>asyncio.sleep\<close> advances; its readings are whole numbers below \<open>2 ^ 53\<close>, whose
  float difference is their difference. In \<open>env_ok\<close> the sandbox library works and every run
  exits with 0; the others differ from it in the one behaviour their name says.\<close>

definition env_ok :: "nat env" where
  "env_ok =
     \<lparr>LLM_SANDBOX_AVAILABLE = True,
      file_dir = ''/srv/sandbox'',
      time_time = (\<lambda>w. (real w, w)),
      float_sub = (\<lambda>a b. a - b),
      asyncio_sleep = (\<lambda>d w. w + d),
      sandbox_init = (\<lambda>w. (Inr 1, w)),
      sandbox_enter = (\<lambda>h w. (Inr (), w)),
      sandbox_run = (\<lambda>h code t w.
         (Inr \<lparr>exit_code = 0, out_stdout = Some ''1'', out_stderr = None, images = None\<rparr>, w)),
      sandbox_exit = (\<lambda>h w. (Inr (), w)),
      os_path_exists = (\<lambda>p w. False),
      subprocess_run = (\<lambda>args t cwd w.
         (Inr \<lparr>returncode = 0, cp_stdout = ''1'', cp_stderr = []\<rparr>, w))\<rparr>"


definition env_init_fails :: "nat env" where
  "env_init_fails = env_ok\<lparr>sandbox_init := (\<lambda>w. (Inl (Exception ''docker unavailable''), w))\<rparr>"

definition env_pip_fails :: "nat env" where
  "env_pip_fails = env_ok\<lparr>sandbox_run := (\<lambda>h code t w. (Inl (Exception ''no network''), w))\<rparr>"

definition env_import_fails :: "nat env" where
  "env_import_fails =
     env_ok\<lparr>sandbox_run := (\<lambda>h code t w.
       if take 7 code = ''import ''
       then (Inl (Exception ''ModuleNotFoundError''), w)
       else (Inr \<lparr>exit_code = 0, out_stdout = None, out_stderr = None, images = None\<rparr>, w))\<rparr>"

definition env_exit_fails :: "nat env" where
  "env_exit_fails = env_ok\<lparr>sandbox_exit := (\<lambda>h w. (Inl (Exception ''container gone''), w))\<rparr>"

definition env_run_fails :: "nat env" where
  "env_run_fails =
     env_ok\<lparr>sandbox_run := (\<lambda>h code t w.
       if t = None
       then (Inr \<lparr>exit_code = 0, out_stdout = None, out_stderr = None, images = None\<rparr>, w)
       else (Inl (Exception ''execution timed out''), w))\<rparr>"

text \<open>Two sandboxes that are given a bound: the first raises when the bound is passed, the
  second ignores the bound, runs for ten seconds and returns.\<close>

definition env_sandbox_boom :: "nat env" where
  "env_sandbox_boom =
     env_ok\<lparr>sandbox_run := (\<lambda>h code t w.
       if t = None
       then (Inr \<lparr>exit_code = 0, out_stdout = None, out_stderr = None, images = None\<rparr>, w)
       else (Inl (Exception ''boom''), w))\<rparr>"

definition env_sandbox_overrun :: "nat env" where
  "env_sandbox_overrun =
     env_ok\<lparr>sandbox_run := (\<lambda>h code t w.
       if t = None
       then (Inr \<lparr>exit_code = 0, out_stdout = None, out_stderr = None, images = None\<rparr>, w)
       else (Inr \<lparr>exit_code = 0, out_stdout = Some ''done'', out_stderr = None, images = None\<rparr>,
             w + 10))\<rparr>"

definition env_subprocess_timeout :: "nat env" where
  "env_subprocess_timeout =
     env_ok\<lparr>LLM_SANDBOX_AVAILABLE := False,
            subprocess_run := (\<lambda>args t cwd w. (Inl (TimeoutExpired ''timed out''), w))\<rparr>"

definition ws_at :: "string \<Rightarrow> handle option \<Rightarrow> real \<Rightarrow> workspace_session" where
  "ws_at k h t = \<lparr>workspace_id = k, session = h, created_at = t, last_used = t\<rparr>"

definition state_with :: "(string \<times> workspace_session) list \<Rightarrow> nat \<Rightarrow> nat state" where
  "state_with d w = \<lparr>sessions = d, cleanup_task = None, world = w, trace = []\<rparr>"


text \<open>The state after a first request whose sandbox could not be created.\<close>

definition after_first_request :: "nat state" where
  "after_first_request = snd (get_or_create_session env_init_fails ''ws1'' (init_state 0))"

section \<open>Properties\<close>

subsection \<open>Sequencing\<close>

lemma retP_apply: "retP x s = (Inr x, s)"
  by (simp add: retP_def)

lemma time_now_apply:
  "time_now env s = (Inr (fst (time_time env (world s))), s\<lparr>world := snd (time_time env (world s))\<rparr>)"
  by (simp add: time_now_def split: prod.splits)

lemma setitem_apply: "setitem k ws s = (Inr (), s\<lparr>sessions := AList.update k ws (sessions s)\<rparr>)"
  by (simp add: setitem_def)

lemma touch_apply:
  "touch env ws s =
     (Inr (ws\<lparr>last_used := fst (time_time env (world s))\<rparr>),
      s\<lparr>world := snd (time_time env (world s))\<rparr>)"
  by (simp add: touch_def bindP_def time_now_apply retP_def)

lemma touch_at_apply:
  "touch_at env k ws s =
     (Inr (ws\<lparr>last_used := fst (time_time env (world s))\<rparr>),
      s\<lparr>world := snd (time_time env (world s)),
        sessions := AList.update k (ws\<lparr>last_used := fst (time_time env (world s))\<rparr>) (sessions s)\<rparr>)"
  by (simp add: touch_at_def bindP_def touch_apply setitem_apply retP_def)

subsection \<open>Closing sessions\<close>

lemma close_session_None: "session ws = None \<Longrightarrow> close_session env ws s = (Inr (), s)"
  by (simp add: close_session_def retP_def)

lemma close_session_Some:
  "session ws = Some h \<Longrightarrow>
   close_session env ws s =
     (Inr (), s\<lparr>world := snd (sandbox_exit env h (world s)),
               trace := trace s @ [Ev_exit h] @
                 (case fst (sandbox_exit env h (world s)) of
                    Inl e \<Rightarrow> [Ev_log ERROR (''Error closing session '' @ workspace_id ws @ '': '' @ str_exn e)]
                  | Inr u \<Rightarrow> [])\<rparr>)"
  by (simp add: close_session_def tryP_def ext_call_def logger_def split: prod.splits sum.splits)

lemma close_session_trace:
  "\<exists>w mid. close_session env ws s = (Inr (), s\<lparr>world := w, trace := trace s @ mid\<rparr>)
     \<and> filter is_exit mid = map Ev_exit (open_handles [ws]) \<and> Ev_cancel \<notin> set mid"
proof (cases "session ws")
  case None
  have "s = s\<lparr>world := world s, trace := trace s @ []\<rparr>" by simp
  with None show ?thesis
    by (metis close_session_None filter.simps(1) list.map(1) list.set(1) empty_iff
        open_handles.simps option.simps(4))
next
  case (Some h)
  show ?thesis
    unfolding close_session_Some [OF Some]
    by (intro exI conjI, rule refl) (simp_all add: Some split: sum.splits)
qed

lemma close_all_trace:
  "\<exists>w mid. close_all env wss s = (Inr (), s\<lparr>world := w, trace := trace s @ mid\<rparr>)
     \<and> filter is_exit mid = map Ev_exit (open_handles wss) \<and> Ev_cancel \<notin> set mid"
proof (induction wss arbitrary: s)
  case Nil
  have "s = s\<lparr>world := world s, trace := trace s @ []\<rparr>" by simp
  then show ?case
    by (metis close_all.simps(1) retP_apply filter.simps(1) list.map(1) list.set(1) empty_iff
        open_handles.simps(1))
next
  case (Cons ws wss)
  obtain w1 mid1 where c1: "close_session env ws s = (Inr (), s\<lparr>world := w1, trace := trace s @ mid1\<rparr>)"
    and f1: "filter is_exit mid1 = map Ev_exit (open_handles [ws])" and n1: "Ev_cancel \<notin> set mid1"
    using close_session_trace [of env ws s] by blast
  let ?s1 = "s\<lparr>world := w1, trace := trace s @ mid1\<rparr>"
  obtain w2 mid2 where c2: "close_all env wss ?s1 = (Inr (), ?s1\<lparr>world := w2, trace := trace ?s1 @ mid2\<rparr>)"
    and f2: "filter is_exit mid2 = map Ev_exit (open_handles wss)" and n2: "Ev_cancel \<notin> set mid2"
    using Cons.IH [of ?s1] by blast
  have "close_all env (ws # wss) s = (Inr (), s\<lparr>world := w2, trace := trace s @ (mid1 @ mid2)\<rparr>)"
    using c1 c2 by (simp add: bindP_def)
  moreover have "filter is_exit (mid1 @ mid2) = map Ev_exit (open_handles (ws # wss))"
    using f1 f2 by (simp split: option.splits)
  moreover have "Ev_cancel \<notin> set (mid1 @ mid2)"
    using n1 n2 by simp
  ultimately show ?case by blast
qed

subsection \<open>Asking for a workspace that has a session\<close>

text \<open>
  C10. When \<^verbatim>\<open>get_or_create_session\<close> is called for a workspace id that is in the dict, it
  returns the record stored there with \<^verbatim>\<open>last_used\<close> set to the current time and nothing else
  changed (same sandbox, same creation time, same workspace id). It makes no call to the
  sandbox library and writes no log record (the sequence of actions is unchanged), every
  other entry of the dict is as before, and so is the order of the keys.
\<close>

theorem get_or_create_existing_frame:
  assumes "map_of (sessions s) k = Some ws"
  shows "case get_or_create_session env k s of (r, s') \<Rightarrow>
           r = Inr (ws\<lparr>last_used := fst (time_time env (world s))\<rparr>)
         \<and> map_of (sessions s') k = Some (ws\<lparr>last_used := fst (time_time env (world s))\<rparr>)
         \<and> (\<forall>k'. k' \<noteq> k \<longrightarrow> map_of (sessions s') k' = map_of (sessions s) k')
         \<and> map fst (sessions s') = map fst (sessions s)
         \<and> trace s' = trace s
         \<and> cleanup_task s' = cleanup_task s
         \<and> world s' = snd (time_time env (world s))"
proof -
  have keys: "k \<in> fst ` set (sessions s)"
    using assms by (metis domI dom_map_of_conv_image_fst)
  have "get_or_create_session env k s = touch_at env k ws s"
    using assms by (simp add: get_or_create_session_def)
  then show ?thesis
    using keys by (simp add: touch_at_apply update_conv' update_keys)
qed

theorem get_or_create_existing_frame_witness:
  "map_of (sessions (state_with [(''ws1'', ws_at ''ws1'' (Some 1) 5), (''ws2'', ws_at ''ws2'' None 7)] 9)) ''ws1''
     = Some (ws_at ''ws1'' (Some 1) 5)
   \<and> get_or_create_session env_ok ''ws1''
       (state_with [(''ws1'', ws_at ''ws1'' (Some 1) 5), (''ws2'', ws_at ''ws2'' None 7)] 9)
     = (Inr \<lparr>workspace_id = ''ws1'', session = Some 1, created_at = 5, last_used = 9\<rparr>,
        state_with [(''ws1'', \<lparr>workspace_id = ''ws1'', session = Some 1, created_at = 5, last_used = 9\<rparr>),
                    (''ws2'', ws_at ''ws2'' None 7)] 9)"
  using get_or_create_existing_frame
    [of "state_with [(''ws1'', ws_at ''ws1'' (Some 1) 5), (''ws2'', ws_at ''ws2'' None 7)] 9"
        "''ws1''" "ws_at ''ws1'' (Some 1) 5" env_ok]
  by (simp add: state_with_def ws_at_def env_ok_def get_or_create_session_def touch_at_apply)

subsection \<open>Destroying a session\<close>

lemma destroy_session_absent:
  "map_of (sessions s) k = None \<Longrightarrow> destroy_session env k s = (Inr (), s)"
  by (simp add: destroy_session_def)

lemma destroy_session_present:
  assumes "map_of (sessions s) k = Some ws"
  shows "destroy_session env k s =
           (case close_session env ws s of (r, s1) \<Rightarrow>
              (Inr (), s1\<lparr>sessions := AList.delete k (sessions s1),
                         trace := trace s1 @ [Ev_log INFO (''Destroyed session for workspace: '' @ k)]\<rparr>))"
proof (cases "session ws")
  case None
  show ?thesis
    using assms
    by (simp add: destroy_session_def bindP_def getitem_def delitem_def logger_def
        close_session_None [OF None])
next
  case (Some h)
  show ?thesis
    using assms
    by (simp add: destroy_session_def bindP_def getitem_def delitem_def logger_def
        close_session_Some [OF Some])
qed

lemma map_of_delete_same: "map_of (AList.delete k al) k = None"
  by (simp add: delete_conv')

text \<open>
  C7. \<^verbatim>\<open>destroy_session\<close> never raises and leaves the workspace id out of the dict, so a second
  call right after it returns normally too and changes nothing. On an id that is not in the
  dict the call changes nothing at all. When the id is in the dict and its session holds a
  sandbox, \<^verbatim>\<open>__exit__\<close> is called on it; an exception it raises is caught and logged as an
  error (\<^verbatim>\<open>Error closing session ...\<close>); after that the entry is deleted and the deletion is
  logged. A session without a sandbox is deleted with no call to the library.
\<close>

theorem destroy_session_idempotent:
  "(\<exists>s'. destroy_session env k s = (Inr (), s') \<and> map_of (sessions s') k = None
         \<and> destroy_session env k s' = (Inr (), s'))
   \<and> (map_of (sessions s) k = None \<longrightarrow> destroy_session env k s = (Inr (), s))
   \<and> (\<forall>ws. map_of (sessions s) k = Some ws \<and> session ws = None \<longrightarrow>
          snd (destroy_session env k s) =
            s\<lparr>sessions := AList.delete k (sessions s),
              trace := trace s @ [Ev_log INFO (''Destroyed session for workspace: '' @ k)]\<rparr>)
   \<and> (\<forall>ws h. map_of (sessions s) k = Some ws \<and> session ws = Some h \<longrightarrow>
          snd (destroy_session env k s) =
            s\<lparr>world := snd (sandbox_exit env h (world s)),
              sessions := AList.delete k (sessions s),
              trace := trace s @ [Ev_exit h] @
                (case fst (sandbox_exit env h (world s)) of
                   Inl e \<Rightarrow> [Ev_log ERROR (''Error closing session '' @ workspace_id ws @ '': '' @ str_exn e)]
                 | Inr u \<Rightarrow> []) @
                [Ev_log INFO (''Destroyed session for workspace: '' @ k)]\<rparr>)"
proof (intro conjI allI impI)
  show "\<exists>s'. destroy_session env k s = (Inr (), s') \<and> map_of (sessions s') k = None
          \<and> destroy_session env k s' = (Inr (), s')"
  proof (cases "map_of (sessions s) k")
    case None
    then show ?thesis by (simp add: destroy_session_absent)
  next
    case (Some ws)
    obtain r s1 where c: "close_session env ws s = (r, s1)" by (cases "close_session env ws s")
    have "sessions s1 = sessions s"
      using c by (cases "session ws") (auto simp: close_session_None close_session_Some)
    then show ?thesis
      using c by (simp add: destroy_session_present [OF Some] destroy_session_absent map_of_delete_same)
  qed
next
  assume "map_of (sessions s) k = None"
  then show "destroy_session env k s = (Inr (), s)" by (rule destroy_session_absent)
next
  fix ws
  assume "map_of (sessions s) k = Some ws \<and> session ws = None"
  then show "snd (destroy_session env k s) =
      s\<lparr>sessions := AList.delete k (sessions s),
        trace := trace s @ [Ev_log INFO (''Destroyed session for workspace: '' @ k)]\<rparr>"
    by (simp add: destroy_session_present close_session_None)
next
  fix ws h
  assume "map_of (sessions s) k = Some ws \<and> session ws = Some h"
  then show "snd (destroy_session env k s) =
      s\<lparr>world := snd (sandbox_exit env h (world s)),
        sessions := AList.delete k (sessions s),
        trace := trace s @ [Ev_exit h] @
          (case fst (sandbox_exit env h (world s)) of
             Inl e \<Rightarrow> [Ev_log ERROR (''Error closing session '' @ workspace_id ws @ '': '' @ str_exn e)]
           | Inr u \<Rightarrow> []) @
          [Ev_log INFO (''Destroyed session for workspace: '' @ k)]\<rparr>"
    by (simp add: destroy_session_present close_session_Some)
qed

theorem destroy_session_idempotent_witness:
  "map_of (sessions (state_with [(''ws1'', ws_at ''ws1'' (Some 1) 5)] 9)) ''ws1'' = Some (ws_at ''ws1'' (Some 1) 5)
   \<and> session (ws_at ''ws1'' (Some 1) 5) = Some 1
   \<and> snd (destroy_session env_exit_fails ''ws1'' (state_with [(''ws1'', ws_at ''ws1'' (Some 1) 5)] 9))
       = \<lparr>sessions = [], cleanup_task = None, world = 9,
          trace = [Ev_exit 1,
                   Ev_log ERROR ''Error closing session ws1: container gone'',
                   Ev_log INFO ''Destroyed session for workspace: ws1'']\<rparr>
   \<and> map_of (sessions (state_with [(''ws2'', ws_at ''ws2'' None 7)] 9)) ''ws2'' = Some (ws_at ''ws2'' None 7)
   \<and> session (ws_at ''ws2'' None 7) = None
   \<and> snd (destroy_session env_ok ''ws2'' (state_with [(''ws2'', ws_at ''ws2'' None 7)] 9))
       = \<lparr>sessions = [], cleanup_task = None, world = 9,
          trace = [Ev_log INFO ''Destroyed session for workspace: ws2'']\<rparr>
   \<and> map_of (sessions (state_with [] 9)) ''ws1'' = None
   \<and> destroy_session env_ok ''ws1'' (state_with [] 9) = (Inr (), state_with [] 9)"
  using destroy_session_idempotent
      [of env_exit_fails "''ws1''" "state_with [(''ws1'', ws_at ''ws1'' (Some 1) 5)] 9"]
    destroy_session_idempotent [of env_ok "''ws2''" "state_with [(''ws2'', ws_at ''ws2'' None 7)] 9"]
    destroy_session_idempotent [of env_ok "''ws1''" "state_with [] 9"]
  by (simp add: state_with_def ws_at_def env_ok_def env_exit_fails_def)

subsection \<open>Stopping the manager\<close>

text \<open>
  C9. \<^verbatim>\<open>stop\<close> returns normally in every state, also when \<^verbatim>\<open>start\<close> was never called (no
  cleanup task). If there is a cleanup task, \<^verbatim>\<open>cancel\<close> is called on it first. Then the
  sessions are closed one after the other in the order of the dict: the \<^verbatim>\<open>__exit__\<close> calls made
  are exactly those of the sandboxes the sessions hold. Then the dict is empty and the stop
  is logged.
\<close>

theorem stop_drains:
  "\<exists>w mid.
     stop env s =
       (Inr (), \<lparr>sessions = [],
                 cleanup_task = (case cleanup_task s of None \<Rightarrow> None | Some t \<Rightarrow> Some (Task True)),
                 world = w,
                 trace = trace s @ (case cleanup_task s of None \<Rightarrow> [] | Some t \<Rightarrow> [Ev_cancel]) @ mid
                           @ [Ev_log INFO ''Sandbox manager stopped'']\<rparr>)
     \<and> filter is_exit mid = map Ev_exit (open_handles (map snd (sessions s)))
     \<and> Ev_cancel \<notin> set mid"
proof -
  define c where "c = (case cleanup_task s of None \<Rightarrow> [] | Some t \<Rightarrow> [Ev_cancel])"
  define ct where "ct = (case cleanup_task s of None \<Rightarrow> None | Some t \<Rightarrow> Some (Task True))"
  let ?s1 = "s\<lparr>cleanup_task := ct, trace := trace s @ c\<rparr>"
  have cancel: "cancel_cleanup_task s = (Inr (), ?s1)"
    by (simp add: cancel_cleanup_task_def c_def ct_def split: option.splits)
  obtain w mid where
    closes: "close_all env (map snd (sessions s)) ?s1 = (Inr (), ?s1\<lparr>world := w, trace := trace ?s1 @ mid\<rparr>)"
    and exits: "filter is_exit mid = map Ev_exit (open_handles (map snd (sessions s)))"
    and nocancel: "Ev_cancel \<notin> set mid"
    using close_all_trace [of env "map snd (sessions s)" ?s1] by blast
  have "stop env s =
      (Inr (), \<lparr>sessions = [], cleanup_task = ct, world = w,
                trace = trace s @ c @ mid @ [Ev_log INFO ''Sandbox manager stopped'']\<rparr>)"
    using cancel closes by (simp add: stop_def bindP_def logger_def)
  then show ?thesis
    using exits nocancel unfolding c_def ct_def by blast
qed

theorem stop_drains_witness:
  "stop env_exit_fails (state_with [(''ws1'', ws_at ''ws1'' (Some 1) 5), (''ws2'', ws_at ''ws2'' None 7)] 9)
     = (Inr (), \<lparr>sessions = [], cleanup_task = None, world = 9,
                 trace = [Ev_exit 1, Ev_log ERROR ''Error closing session ws1: container gone'',
                          Ev_log INFO ''Sandbox manager stopped'']\<rparr>)
   \<and> stop env_ok (snd (start (state_with [(''ws1'', ws_at ''ws1'' (Some 1) 5)] 9)))
     = (Inr (), \<lparr>sessions = [], cleanup_task = Some (Task True), world = 9,
                 trace = [Ev_log INFO ''Sandbox manager started'', Ev_cancel, Ev_exit 1,
                          Ev_log INFO ''Sandbox manager stopped'']\<rparr>)"
  using stop_drains [of env_exit_fails "state_with [(''ws1'', ws_at ''ws1'' (Some 1) 5), (''ws2'', ws_at ''ws2'' None 7)] 9"]
    stop_drains [of env_ok "snd (start (state_with [(''ws1'', ws_at ''ws1'' (Some 1) 5)] 9))"]
  by (simp add: stop_def start_def cancel_cleanup_task_def bindP_def logger_def retP_def
      close_session_def tryP_def ext_call_def state_with_def ws_at_def env_ok_def env_exit_fails_def)

subsection \<open>Creating a session\<close>

lemma new_session_start_apply:
  "new_session_start env k s =
     (Inr \<lparr>workspace_id = k, session = None,
           created_at = fst (time_time env (world s)),
           last_used = fst (time_time env (snd (time_time env (world s))))\<rparr>,
      s\<lparr>world := snd (time_time env (snd (time_time env (world s)))),
        trace := trace s @ [Ev_log INFO (''Creating new sandbox session for workspace: '' @ k)]\<rparr>)"
  by (simp add: new_session_start_def new_workspace_session_def bindP_def logger_def
      time_now_apply retP_def)

lemma get_or_create_new:
  assumes "map_of (sessions s) k = None" and "new_session_start env k s = (Inr ws0, s0)"
  shows "get_or_create_session env k s =
     (if LLM_SANDBOX_AVAILABLE env
      then (case create_sandbox env k ws0 s0 of
              (Inr ws1, s1) \<Rightarrow> (Inr ws1, s1\<lparr>sessions := AList.update k ws1 (sessions s1)\<rparr>)
            | (Inl e, s1) \<Rightarrow>
                (Inr (ws0\<lparr>session := None\<rparr>),
                 s1\<lparr>sessions := AList.update k (ws0\<lparr>session := None\<rparr>) (sessions s1),
                    trace := trace s1 @ [Ev_log ERROR (''Failed to create sandbox session: '' @ str_exn e)]\<rparr>))
      else (Inr ws0, s0\<lparr>sessions := AList.update k ws0 (sessions s0)\<rparr>))"
  using assms
  by (simp add: get_or_create_session_def bindP_def tryP_def logger_def setitem_def retP_def
      split: prod.splits sum.splits)

lemma get_or_create_returns:
  "\<exists>ws s1. get_or_create_session env k s = (Inr ws, s1) \<and> map_of (sessions s1) k = Some ws"
proof (cases "map_of (sessions s) k")
  case None
  obtain ws0 s0 where st: "new_session_start env k s = (Inr ws0, s0)"
    using new_session_start_apply [of env k s] by blast
  show ?thesis
    unfolding get_or_create_new [OF None st]
    by (simp add: update_conv' split: prod.splits sum.splits)
next
  case (Some ws)
  have "get_or_create_session env k s = touch_at env k ws s"
    using Some by (simp add: get_or_create_session_def)
  then show ?thesis
    by (simp add: touch_at_apply update_conv')
qed

subsection \<open>Executing code\<close>

lemma fallback_apply:
  "fallback env code timeout s =
     (case subprocess_run env [venv_python env (world s), ''-c'', code] timeout (file_dir env) (world s) of
        (r, w) \<Rightarrow>
          (Inr (case r of
                  Inr cp \<Rightarrow> subprocess_result cp
                | Inl (TimeoutExpired m) \<Rightarrow> timeout_result timeout
                | Inl e \<Rightarrow> error_result e),
           s\<lparr>world := w,
             trace := trace s @ [Ev_log WARNING ''No sandbox available, using subprocess fallback'',
                                 Ev_subprocess [venv_python env (world s), ''-c'', code] timeout (file_dir env)]\<rparr>))"
  by (simp add: fallback_def bindP_def tryP_def logger_def ext_call_def retP_def Let_def
      split: prod.splits sum.splits exn.splits)

lemma execute_unfold:
  assumes "get_or_create_session env k s = (Inr ws, s1)"
  shows "execute env k code timeout s =
     (case session ws of
        None \<Rightarrow> fallback env code timeout s1
      | Some h \<Rightarrow>
          (case sandbox_run env h code (Some timeout) (world s1) of
             (Inr out, w) \<Rightarrow>
               (Inr (sandbox_result out),
                s1\<lparr>world := snd (time_time env w),
                   trace := trace s1 @ [Ev_run h code (Some timeout)],
                   sessions := AList.update k (ws\<lparr>last_used := fst (time_time env w)\<rparr>) (sessions s1)\<rparr>)
           | (Inl e, w) \<Rightarrow>
               (Inr (error_result e),
                s1\<lparr>world := w,
                   trace := trace s1 @ [Ev_run h code (Some timeout),
                                        Ev_log ERROR (''Execution error in '' @ k @ '': '' @ str_exn e)]\<rparr>)))"
  using assms
  by (simp add: execute_def bindP_def tryP_def run_in_def ext_call_def logger_def retP_def
      touch_at_apply split: option.splits prod.splits sum.splits)

text \<open>
  C8, as the code has it. On the subprocess path, when \<^verbatim>\<open>subprocess.run\<close> raises
  \<^verbatim>\<open>TimeoutExpired\<close> the call returns \<^verbatim>\<open>success = False\<close>, an empty \<^verbatim>\<open>stdout\<close>, no artifacts and
  the fixed text \<^verbatim>\<open>Execution timed out after <timeout> seconds\<close> in \<^verbatim>\<open>stderr\<close>. On the sandbox
  path the bound is handed to the library's \<^verbatim>\<open>run\<close> and the code adds no message of its own:
  when \<^verbatim>\<open>run\<close> raises, the call returns \<^verbatim>\<open>success = False\<close> with the text of the exception in
  \<^verbatim>\<open>stderr\<close>; when \<^verbatim>\<open>run\<close> returns, what it returned is passed on, with \<^verbatim>\<open>success\<close> exactly when
  the exit code is 0.
\<close>

theorem execute_timeout_failure:
  "(\<forall>ws s1 m w.
      get_or_create_session env k s = (Inr ws, s1) \<and> session ws = None
      \<and> subprocess_run env [venv_python env (world s1), ''-c'', code] timeout (file_dir env) (world s1)
          = (Inl (TimeoutExpired m), w)
      \<longrightarrow> fst (execute env k code timeout s) =
            Inr \<lparr>success = False, stdout = [],
                 stderr = ''Execution timed out after '' @ str_int timeout @ '' seconds'',
                 artifacts = []\<rparr>)
   \<and> (\<forall>ws s1 h e w.
      get_or_create_session env k s = (Inr ws, s1) \<and> session ws = Some h
      \<and> sandbox_run env h code (Some timeout) (world s1) = (Inl e, w)
      \<longrightarrow> fst (execute env k code timeout s) =
            Inr \<lparr>success = False, stdout = [], stderr = str_exn e, artifacts = []\<rparr>)
   \<and> (\<forall>ws s1 h out w.
      get_or_create_session env k s = (Inr ws, s1) \<and> session ws = Some h
      \<and> sandbox_run env h code (Some timeout) (world s1) = (Inr out, w)
      \<longrightarrow> fst (execute env k code timeout s) =
            Inr \<lparr>success = (exit_code out = 0),
                 stdout = (case out_stdout out of None \<Rightarrow> [] | Some v \<Rightarrow> v),
                 stderr = (case out_stderr out of None \<Rightarrow> [] | Some v \<Rightarrow> v),
                 artifacts = map (\<lambda>img. \<lparr>artifact_type = ''image'', artifact_data = img\<rparr>)
                               (case images out of None \<Rightarrow> [] | Some v \<Rightarrow> v)\<rparr>)"
  by (auto simp: execute_unfold fallback_apply timeout_result_def error_result_def
      sandbox_result_def or_empty_def)

theorem execute_timeout_failure_witness:
  "get_or_create_session env_subprocess_timeout ''ws2'' (init_state 0)
     = (Inr (ws_at ''ws2'' None 0),
        \<lparr>sessions = [(''ws2'', ws_at ''ws2'' None 0)], cleanup_task = None, world = 0,
         trace = [Ev_log INFO ''Creating new sandbox session for workspace: ws2'']\<rparr>)
   \<and> session (ws_at ''ws2'' None 0) = None
   \<and> subprocess_run env_subprocess_timeout
         [venv_python env_subprocess_timeout 0, ''-c'', ''while True: pass''] 1
         (file_dir env_subprocess_timeout) 0 = (Inl (TimeoutExpired ''timed out''), 0)
   \<and> fst (execute env_subprocess_timeout ''ws2'' ''while True: pass'' 1 (init_state 0))
     = Inr \<lparr>success = False, stdout = [], stderr = ''Execution timed out after 1 seconds'',
            artifacts = []\<rparr>
   \<and> fst (execute env_subprocess_timeout ''ws2'' ''while True: pass'' 60 (init_state 0))
     = Inr \<lparr>success = False, stdout = [], stderr = ''Execution timed out after 60 seconds'',
            artifacts = []\<rparr>
   \<and> fst (execute env_subprocess_timeout ''ws2'' ''while True: pass'' 125 (init_state 0))
     = Inr \<lparr>success = False, stdout = [], stderr = ''Execution timed out after 125 seconds'',
            artifacts = []\<rparr>
   \<and> fst (execute env_subprocess_timeout ''ws2'' ''while True: pass'' (- 3) (init_state 0))
     = Inr \<lparr>success = False, stdout = [], stderr = ''Execution timed out after -3 seconds'',
            artifacts = []\<rparr>
   \<and> get_or_create_session env_run_fails ''ws2'' (state_with [(''ws2'', ws_at ''ws2'' (Some 1) 0)] 3)
     = (Inr \<lparr>workspace_id = ''ws2'', session = Some 1, created_at = 0, last_used = 3\<rparr>,
        state_with [(''ws2'', \<lparr>workspace_id = ''ws2'', session = Some 1, created_at = 0, last_used = 3\<rparr>)] 3)
   \<and> sandbox_run env_run_fails 1 ''while True: pass'' (Some 1) 3 = (Inl (Exception ''execution timed out''), 3)
   \<and> fst (execute env_run_fails ''ws2'' ''while True: pass'' 1 (state_with [(''ws2'', ws_at ''ws2'' (Some 1) 0)] 3))
     = Inr \<lparr>success = False, stdout = [], stderr = ''execution timed out'', artifacts = []\<rparr>
   \<and> sandbox_run env_ok 1 ''print(1)'' (Some 5) 3
     = (Inr \<lparr>exit_code = 0, out_stdout = Some ''1'', out_stderr = None, images = None\<rparr>, 3)
   \<and> fst (execute env_ok ''ws2'' ''print(1)'' 5 (state_with [(''ws2'', ws_at ''ws2'' (Some 1) 0)] 3))
     = Inr \<lparr>success = True, stdout = ''1'', stderr = [], artifacts = []\<rparr>"
proof -
  have g1: "get_or_create_session env_subprocess_timeout ''ws2'' (init_state 0)
     = (Inr (ws_at ''ws2'' None 0),
        \<lparr>sessions = [(''ws2'', ws_at ''ws2'' None 0)], cleanup_task = None, world = 0,
         trace = [Ev_log INFO ''Creating new sandbox session for workspace: ws2'']\<rparr>)"
    by (simp add: get_or_create_session_def new_session_start_apply bindP_def setitem_def retP_def
        init_state_def ws_at_def env_subprocess_timeout_def env_ok_def)
  have r1: "subprocess_run env_subprocess_timeout
         [venv_python env_subprocess_timeout 0, ''-c'', ''while True: pass''] t
         (file_dir env_subprocess_timeout) 0 = (Inl (TimeoutExpired ''timed out''), 0)" for t
    by (simp add: env_subprocess_timeout_def env_ok_def)
  have g2: "get_or_create_session env ''ws2'' (state_with [(''ws2'', ws_at ''ws2'' (Some 1) 0)] 3)
     = (Inr \<lparr>workspace_id = ''ws2'', session = Some 1, created_at = 0, last_used = 3\<rparr>,
        state_with [(''ws2'', \<lparr>workspace_id = ''ws2'', session = Some 1, created_at = 0, last_used = 3\<rparr>)] 3)"
    if "time_time env = (\<lambda>w. (real w, w))" for env :: "nat env"
    using that by (simp add: get_or_create_session_def touch_at_apply state_with_def ws_at_def)
  have g2a: "get_or_create_session env_run_fails ''ws2'' (state_with [(''ws2'', ws_at ''ws2'' (Some 1) 0)] 3)
     = (Inr \<lparr>workspace_id = ''ws2'', session = Some 1, created_at = 0, last_used = 3\<rparr>,
        state_with [(''ws2'', \<lparr>workspace_id = ''ws2'', session = Some 1, created_at = 0, last_used = 3\<rparr>)] 3)"
    by (rule g2) (simp add: env_run_fails_def env_ok_def)
  have g2b: "get_or_create_session env_ok ''ws2'' (state_with [(''ws2'', ws_at ''ws2'' (Some 1) 0)] 3)
     = (Inr \<lparr>workspace_id = ''ws2'', session = Some 1, created_at = 0, last_used = 3\<rparr>,
        state_with [(''ws2'', \<lparr>workspace_id = ''ws2'', session = Some 1, created_at = 0, last_used = 3\<rparr>)] 3)"
    by (rule g2) (simp add: env_ok_def)
  have r2: "sandbox_run env_run_fails 1 ''while True: pass'' (Some 1) 3
     = (Inl (Exception ''execution timed out''), 3)"
    by (simp add: env_run_fails_def env_ok_def)
  have r3: "sandbox_run env_ok 1 ''print(1)'' (Some 5) 3
     = (Inr \<lparr>exit_code = 0, out_stdout = Some ''1'', out_stderr = None, images = None\<rparr>, 3)"
    by (simp add: env_ok_def)
  have n1: "str_int 1 = ''1''" and n60: "str_int 60 = ''60''" and n125: "str_int 125 = ''125''"
    and m3: "str_int (- 3) = ''-3''"
    by (simp_all add: str_int_def digit_char_def)
  show ?thesis
    using execute_timeout_failure
        [of env_subprocess_timeout "''ws2''" "init_state 0" "''while True: pass''" 1]
      execute_timeout_failure
        [of env_subprocess_timeout "''ws2''" "init_state 0" "''while True: pass''" 60]
      execute_timeout_failure
        [of env_subprocess_timeout "''ws2''" "init_state 0" "''while True: pass''" 125]
      execute_timeout_failure
        [of env_subprocess_timeout "''ws2''" "init_state 0" "''while True: pass''" "- 3"]
      execute_timeout_failure
        [of env_run_fails "''ws2''" "state_with [(''ws2'', ws_at ''ws2'' (Some 1) 0)] 3" "''while True: pass''" 1]
      execute_timeout_failure
        [of env_ok "''ws2''" "state_with [(''ws2'', ws_at ''ws2'' (Some 1) 0)] 3" "''print(1)''" 5]
      g1 r1 g2a g2b r2 r3
    by (simp add: n1 n60 n125 m3 ws_at_def state_with_def)
qed

text \<open>
  C8 as stated fails on the sandbox path. A sandbox that raises when the bound is passed
  gives the text of its exception, which names no bound; a sandbox that runs for ten seconds
  under a bound of one second and returns gives \<^verbatim>\<open>success = True\<close>. The code has no message
  and no clock of its own on that path.
\<close>

theorem execute_sandbox_timeout_counterexample:
  "sandbox_run env_sandbox_boom 1 ''while True: pass'' (Some 1) 3 = (Inl (Exception ''boom''), 3)
   \<and> execute env_sandbox_boom ''ws2'' ''while True: pass'' 1 (state_with [(''ws2'', ws_at ''ws2'' (Some 1) 0)] 3)
     = (Inr \<lparr>success = False, stdout = [], stderr = ''boom'', artifacts = []\<rparr>,
        \<lparr>sessions = [(''ws2'', \<lparr>workspace_id = ''ws2'', session = Some 1, created_at = 0, last_used = 3\<rparr>)],
         cleanup_task = None, world = 3,
         trace = [Ev_run 1 ''while True: pass'' (Some 1),
                  Ev_log ERROR ''Execution error in ws2: boom'']\<rparr>)
   \<and> sandbox_run env_sandbox_overrun 1 ''while True: pass'' (Some 1) 3
     = (Inr \<lparr>exit_code = 0, out_stdout = Some ''done'', out_stderr = None, images = None\<rparr>, 13)
   \<and> execute env_sandbox_overrun ''ws2'' ''while True: pass'' 1 (state_with [(''ws2'', ws_at ''ws2'' (Some 1) 0)] 3)
     = (Inr \<lparr>success = True, stdout = ''done'', stderr = [], artifacts = []\<rparr>,
        \<lparr>sessions = [(''ws2'', \<lparr>workspace_id = ''ws2'', session = Some 1, created_at = 0, last_used = 13\<rparr>)],
         cleanup_task = None, world = 13,
         trace = [Ev_run 1 ''while True: pass'' (Some 1)]\<rparr>)"
  by (simp add: execute_def get_or_create_session_def touch_at_apply run_in_def
      bindP_def tryP_def ext_call_def logger_def retP_def sandbox_result_def error_result_def
      or_empty_def state_with_def ws_at_def env_ok_def env_sandbox_boom_def env_sandbox_overrun_def)

text \<open>
  C1, as the code has it. Every call of \<^verbatim>\<open>execute\<close> returns a result with all four fields
  and raises nothing. Which result depends on the session \<^verbatim>\<open>get_or_create_session\<close> returned.
  Without a sandbox the code runs in a subprocess: a completed run gives \<^verbatim>\<open>success\<close> exactly
  when the return code is 0, with the captured output; \<^verbatim>\<open>TimeoutExpired\<close> gives
  \<^verbatim>\<open>success = False\<close> with the fixed time-out text; any other exception of the spawn gives
  \<^verbatim>\<open>success = False\<close> with its text in \<^verbatim>\<open>stderr\<close>. With a sandbox, a run that returns gives
  \<^verbatim>\<open>success\<close> exactly when the exit code is 0, with the captured output and the images as
  artifacts; a run that raises gives \<^verbatim>\<open>success = False\<close> with the text of the exception.
  A failure to create the sandbox is not among the failures reported: the session has no
  sandbox then, and the call takes the subprocess path.
\<close>

theorem execute_always_returns:
  "\<exists>ws s1. get_or_create_session env k s = (Inr ws, s1) \<and>
     (\<exists>r s'. execute env k code timeout s = (Inr r, s') \<and>
        (case session ws of
           None \<Rightarrow>
             (case fst (subprocess_run env [venv_python env (world s1), ''-c'', code] timeout
                          (file_dir env) (world s1)) of
                Inr cp \<Rightarrow>
                  r = \<lparr>success = (returncode cp = 0), stdout = cp_stdout cp, stderr = cp_stderr cp,
                        artifacts = []\<rparr>
              | Inl (TimeoutExpired m) \<Rightarrow>
                  r = \<lparr>success = False, stdout = [],
                        stderr = ''Execution timed out after '' @ str_int timeout @ '' seconds'',
                        artifacts = []\<rparr>
              | Inl e \<Rightarrow> r = \<lparr>success = False, stdout = [], stderr = str_exn e, artifacts = []\<rparr>)
         | Some h \<Rightarrow>
             (case fst (sandbox_run env h code (Some timeout) (world s1)) of
                Inr out \<Rightarrow>
                  r = \<lparr>success = (exit_code out = 0),
                        stdout = (case out_stdout out of None \<Rightarrow> [] | Some v \<Rightarrow> v),
                        stderr = (case out_stderr out of None \<Rightarrow> [] | Some v \<Rightarrow> v),
                        artifacts = map (\<lambda>img. \<lparr>artifact_type = ''image'', artifact_data = img\<rparr>)
                                      (case images out of None \<Rightarrow> [] | Some v \<Rightarrow> v)\<rparr>
              | Inl e \<Rightarrow> r = \<lparr>success = False, stdout = [], stderr = str_exn e, artifacts = []\<rparr>)))"
proof -
  obtain ws s1 where g: "get_or_create_session env k s = (Inr ws, s1)"
    using get_or_create_returns [of env k s] by blast
  show ?thesis
  proof (cases "session ws")
    case None
    show ?thesis
      unfolding g execute_unfold [OF g] fallback_apply
      by (simp add: None subprocess_result_def timeout_result_def error_result_def
          split: prod.splits sum.splits exn.splits)
  next
    case (Some h)
    show ?thesis
      unfolding g execute_unfold [OF g]
      by (simp add: Some sandbox_result_def error_result_def or_empty_def
          split: prod.splits sum.splits)
  qed
qed

theorem execute_always_returns_witness:
  "execute env_ok ''ws1'' ''x=1; print(x)'' 5 (init_state 0)
     = (Inr \<lparr>success = True, stdout = ''1'', stderr = [], artifacts = []\<rparr>,
        \<lparr>sessions = [(''ws1'', ws_at ''ws1'' (Some 1) 0)], cleanup_task = None, world = 0,
         trace = [Ev_log INFO ''Creating new sandbox session for workspace: ws1'', Ev_init, Ev_enter 1,
                  Ev_run 1 ''import pandas'' None, Ev_run 1 ''import numpy'' None,
                  Ev_run 1 ''import matplotlib'' None, Ev_run 1 ''import pypdf'' None,
                  Ev_run 1 ''import pdfplumber'' None, Ev_run 1 ''import openpyxl'' None,
                  Ev_run 1 ''import requests'' None,
                  Ev_log INFO ''Session created for workspace: ws1'',
                  Ev_run 1 ''x=1; print(x)'' (Some 5)]\<rparr>)
   \<and> fst (execute env_run_fails ''ws2'' ''1/0'' 5 (state_with [(''ws2'', ws_at ''ws2'' (Some 1) 0)] 3))
     = Inr \<lparr>success = False, stdout = [], stderr = ''execution timed out'', artifacts = []\<rparr>"
  using execute_always_returns [of env_ok "''ws1''" "init_state 0" "''x=1; print(x)''" 5]
    execute_always_returns [of env_run_fails "''ws2''" "state_with [(''ws2'', ws_at ''ws2'' (Some 1) 0)] 3" "''1/0''" 5]
  by (simp add: execute_def get_or_create_session_def new_session_start_apply create_sandbox_def
      preinstall_lib_def run_in_def touch_at_apply DEFAULT_LIBRARIES_def replace_dash_def
      bindP_def tryP_def ext_call_def logger_def setitem_def retP_def sandbox_result_def
      error_result_def or_empty_def init_state_def state_with_def ws_at_def env_ok_def
      env_run_fails_def)

text \<open>
  C1 as stated fails where the sandbox cannot be created: the failure is logged, the code
  runs in the subprocess, and the call reports \<^verbatim>\<open>success = True\<close>.
\<close>

theorem execute_provisioning_failure_counterexample:
  "execute env_init_fails ''ws3'' ''print(1)'' 5 (init_state 0)
     = (Inr \<lparr>success = True, stdout = ''1'', stderr = [], artifacts = []\<rparr>,
        \<lparr>sessions = [(''ws3'', ws_at ''ws3'' None 0)], cleanup_task = None, world = 0,
         trace = [Ev_log INFO ''Creating new sandbox session for workspace: ws3'', Ev_init,
                  Ev_log ERROR ''Failed to create sandbox session: docker unavailable'',
                  Ev_log WARNING ''No sandbox available, using subprocess fallback'',
                  Ev_subprocess [''python3'', ''-c'', ''print(1)''] 5 ''/srv/sandbox'']\<rparr>)"
  by (simp add: execute_def get_or_create_session_def new_session_start_apply create_sandbox_def
      fallback_apply venv_python_def subprocess_result_def
      bindP_def tryP_def ext_call_def logger_def setitem_def retP_def
      init_state_def ws_at_def env_ok_def env_init_fails_def)

subsection \<open>The warm-up and a sandbox that cannot be created\<close>

text \<open>The equations that evaluate a call on a concrete outside.\<close>

lemmas run_defs = get_or_create_session_def new_session_start_apply create_sandbox_def
      preinstall_lib_def run_in_def DEFAULT_LIBRARIES_def replace_dash_def
      bindP_def tryP_def ext_call_def logger_def setitem_def retP_def init_state_def ws_at_def

lemma preinstall_lib_import_ok:
  assumes "sandbox_run env h (''import '' @ replace_dash lib) None (world s) = (Inr r, w)"
  shows "preinstall_lib env h lib s =
           (Inr (), s\<lparr>world := w, trace := trace s @ [Ev_run h (''import '' @ replace_dash lib) None]\<rparr>)"
  using assms by (simp add: preinstall_lib_def tryP_def bindP_def run_in_def ext_call_def retP_def)

lemma preinstall_lib_import_raises:
  assumes "sandbox_run env h (''import '' @ replace_dash lib) None (world s) = (Inl e, w)"
  shows "preinstall_lib env h lib s =
           ((case fst (sandbox_run env h (''!pip install -q '' @ lib) None w) of
               Inl e' \<Rightarrow> Inl e' | Inr r \<Rightarrow> Inr ()),
            s\<lparr>world := snd (sandbox_run env h (''!pip install -q '' @ lib) None w),
              trace := trace s @ [Ev_run h (''import '' @ replace_dash lib) None,
                                  Ev_run h (''!pip install -q '' @ lib) None]\<rparr>)"
  using assms
  by (simp add: preinstall_lib_def tryP_def bindP_def run_in_def ext_call_def retP_def
      split: prod.splits sum.splits)

lemma preinstall_lib_raises:
  assumes "preinstall_lib env h lib s = (Inl e, s')"
  shows "\<exists>w e1 w'. fst (sandbox_run env h (''import '' @ replace_dash lib) None w) = Inl e1
           \<and> fst (sandbox_run env h (''!pip install -q '' @ lib) None w') = Inl e"
proof (cases "sandbox_run env h (''import '' @ replace_dash lib) None (world s)")
  case (Pair r w)
  show ?thesis
  proof (cases r)
    case (Inr out)
    then show ?thesis
      using assms Pair by (simp add: preinstall_lib_import_ok)
  next
    case (Inl e1)
    have "fst (sandbox_run env h (''import '' @ replace_dash lib) None (world s)) = Inl e1"
      using Pair Inl by simp
    moreover have "fst (sandbox_run env h (''!pip install -q '' @ lib) None w) = Inl e"
      using assms Pair Inl by (simp add: preinstall_lib_import_raises split: sum.splits)
    ultimately show ?thesis by blast
  qed
qed

lemma preinstall_raises:
  "preinstall env h libs s = (Inl e, s') \<Longrightarrow>
   \<exists>lib\<in>set libs. \<exists>w e1 w'.
      fst (sandbox_run env h (''import '' @ replace_dash lib) None w) = Inl e1
      \<and> fst (sandbox_run env h (''!pip install -q '' @ lib) None w') = Inl e"
proof (induction libs arbitrary: s)
  case Nil
  then show ?case by (simp add: retP_def)
next
  case (Cons lib libs)
  obtain r s1 where step: "preinstall_lib env h lib s = (r, s1)"
    by (cases "preinstall_lib env h lib s")
  show ?case
  proof (cases r)
    case (Inl e1)
    then have "preinstall_lib env h lib s = (Inl e, s')"
      using Cons.prems step by (simp add: bindP_def)
    then show ?thesis
      using preinstall_lib_raises [of env h lib s e s'] by auto
  next
    case (Inr u)
    then have "preinstall env h libs s1 = (Inl e, s')"
      using Cons.prems step by (simp add: bindP_def)
    then show ?thesis
      using Cons.IH [of s1] by auto
  qed
qed

lemma create_sandbox_apply:
  assumes "sandbox_init env (world s0) = (Inr h, w1)" and "sandbox_enter env h w1 = (Inr (), w2)"
  shows "create_sandbox env k ws0 s0 =
     (case preinstall env h DEFAULT_LIBRARIES (s0\<lparr>world := w2, trace := trace s0 @ [Ev_init, Ev_enter h]\<rparr>) of
        (Inl e, s3) \<Rightarrow> (Inl e, s3)
      | (Inr u, s3) \<Rightarrow>
          (Inr (ws0\<lparr>session := Some h\<rparr>),
           s3\<lparr>trace := trace s3 @ [Ev_log INFO (''Session created for workspace: '' @ k)]\<rparr>))"
  using assms
  by (simp add: create_sandbox_def bindP_def ext_call_def logger_def retP_def
      split: prod.splits sum.splits)

text \<open>
  C4, as the code has it. The warm-up goes through \<^verbatim>\<open>DEFAULT_LIBRARIES\<close> in order. For each
  library it runs the import; when the import returns, nothing else is run for it; when the
  import raises, the installation is run, and nothing is logged. The warm-up raises only
  when an installation raises after its import raised; the libraries after it are skipped.
  In a new session whose sandbox was constructed and entered, a warm-up that returns leaves
  the session registered with its sandbox; a warm-up that raises is logged as a failure to
  create the sandbox session, and the session is still returned and registered, without
  sandbox.
\<close>

theorem warmup_outcomes:
  "DEFAULT_LIBRARIES =
     [''pandas'', ''numpy'', ''matplotlib'', ''pypdf'', ''pdfplumber'', ''openpyxl'', ''requests'']
   \<and> preinstall env h (lib # libs) s =
       (case preinstall_lib env h lib s of
          (Inl e, s') \<Rightarrow> (Inl e, s')
        | (Inr u, s') \<Rightarrow> preinstall env h libs s')
   \<and> (\<forall>r w. sandbox_run env h (''import '' @ replace_dash lib) None (world s) = (Inr r, w) \<longrightarrow>
      preinstall_lib env h lib s =
        (Inr (), s\<lparr>world := w, trace := trace s @ [Ev_run h (''import '' @ replace_dash lib) None]\<rparr>))
   \<and> (\<forall>e w. sandbox_run env h (''import '' @ replace_dash lib) None (world s) = (Inl e, w) \<longrightarrow>
      preinstall_lib env h lib s =
        ((case fst (sandbox_run env h (''!pip install -q '' @ lib) None w) of
            Inl e' \<Rightarrow> Inl e' | Inr r \<Rightarrow> Inr ()),
         s\<lparr>world := snd (sandbox_run env h (''!pip install -q '' @ lib) None w),
           trace := trace s @ [Ev_run h (''import '' @ replace_dash lib) None,
                               Ev_run h (''!pip install -q '' @ lib) None]\<rparr>))
   \<and> (\<forall>e s'. preinstall env h libs s = (Inl e, s') \<longrightarrow>
      (\<exists>l\<in>set libs. \<exists>w e1 w'.
          fst (sandbox_run env h (''import '' @ replace_dash l) None w) = Inl e1
          \<and> fst (sandbox_run env h (''!pip install -q '' @ l) None w') = Inl e))
   \<and> (\<forall>ws0 s0 w1 w2 r s3.
        map_of (sessions s) k = None \<and> LLM_SANDBOX_AVAILABLE env
        \<and> new_session_start env k s = (Inr ws0, s0)
        \<and> sandbox_init env (world s0) = (Inr h, w1) \<and> sandbox_enter env h w1 = (Inr (), w2)
        \<and> preinstall env h DEFAULT_LIBRARIES (s0\<lparr>world := w2, trace := trace s0 @ [Ev_init, Ev_enter h]\<rparr>)
            = (r, s3)
        \<longrightarrow> get_or_create_session env k s =
            (case r of
               Inr u \<Rightarrow>
                 (Inr (ws0\<lparr>session := Some h\<rparr>),
                  s3\<lparr>sessions := AList.update k (ws0\<lparr>session := Some h\<rparr>) (sessions s3),
                     trace := trace s3 @ [Ev_log INFO (''Session created for workspace: '' @ k)]\<rparr>)
             | Inl e \<Rightarrow>
                 (Inr (ws0\<lparr>session := None\<rparr>),
                  s3\<lparr>sessions := AList.update k (ws0\<lparr>session := None\<rparr>) (sessions s3),
                     trace := trace s3 @ [Ev_log ERROR (''Failed to create sandbox session: '' @ str_exn e)]\<rparr>)))"
proof (intro conjI allI impI)
  show "DEFAULT_LIBRARIES =
     [''pandas'', ''numpy'', ''matplotlib'', ''pypdf'', ''pdfplumber'', ''openpyxl'', ''requests'']"
    by (rule DEFAULT_LIBRARIES_def)
next
  show "preinstall env h (lib # libs) s =
       (case preinstall_lib env h lib s of
          (Inl e, s') \<Rightarrow> (Inl e, s')
        | (Inr u, s') \<Rightarrow> preinstall env h libs s')"
    by (simp add: bindP_def split: prod.splits sum.splits)
next
  fix r w
  assume "sandbox_run env h (''import '' @ replace_dash lib) None (world s) = (Inr r, w)"
  then show "preinstall_lib env h lib s =
      (Inr (), s\<lparr>world := w, trace := trace s @ [Ev_run h (''import '' @ replace_dash lib) None]\<rparr>)"
    by (rule preinstall_lib_import_ok)
next
  fix e w
  assume "sandbox_run env h (''import '' @ replace_dash lib) None (world s) = (Inl e, w)"
  then show "preinstall_lib env h lib s =
      ((case fst (sandbox_run env h (''!pip install -q '' @ lib) None w) of
          Inl e' \<Rightarrow> Inl e' | Inr r \<Rightarrow> Inr ()),
       s\<lparr>world := snd (sandbox_run env h (''!pip install -q '' @ lib) None w),
         trace := trace s @ [Ev_run h (''import '' @ replace_dash lib) None,
                             Ev_run h (''!pip install -q '' @ lib) None]\<rparr>)"
    by (rule preinstall_lib_import_raises)
next
  fix e s'
  assume "preinstall env h libs s = (Inl e, s')"
  then show "\<exists>l\<in>set libs. \<exists>w e1 w'.
      fst (sandbox_run env h (''import '' @ replace_dash l) None w) = Inl e1
      \<and> fst (sandbox_run env h (''!pip install -q '' @ l) None w') = Inl e"
    by (rule preinstall_raises)
next
  fix ws0 s0 w1 w2 r s3
  assume a: "map_of (sessions s) k = None \<and> LLM_SANDBOX_AVAILABLE env
        \<and> new_session_start env k s = (Inr ws0, s0)
        \<and> sandbox_init env (world s0) = (Inr h, w1) \<and> sandbox_enter env h w1 = (Inr (), w2)
        \<and> preinstall env h DEFAULT_LIBRARIES (s0\<lparr>world := w2, trace := trace s0 @ [Ev_init, Ev_enter h]\<rparr>)
            = (r, s3)"
  then have absent: "map_of (sessions s) k = None" and st: "new_session_start env k s = (Inr ws0, s0)"
    and i: "sandbox_init env (world s0) = (Inr h, w1)" and e: "sandbox_enter env h w1 = (Inr (), w2)"
    by simp_all
  show "get_or_create_session env k s =
      (case r of
         Inr u \<Rightarrow>
           (Inr (ws0\<lparr>session := Some h\<rparr>),
            s3\<lparr>sessions := AList.update k (ws0\<lparr>session := Some h\<rparr>) (sessions s3),
               trace := trace s3 @ [Ev_log INFO (''Session created for workspace: '' @ k)]\<rparr>)
       | Inl e \<Rightarrow>
           (Inr (ws0\<lparr>session := None\<rparr>),
            s3\<lparr>sessions := AList.update k (ws0\<lparr>session := None\<rparr>) (sessions s3),
               trace := trace s3 @ [Ev_log ERROR (''Failed to create sandbox session: '' @ str_exn e)]\<rparr>))"
    unfolding get_or_create_new [OF absent st] create_sandbox_apply [OF i e]
    using a by (simp split: sum.splits)
qed

theorem warmup_outcomes_witness:
  "sandbox_run env_import_fails 1 (''import '' @ replace_dash ''pandas'') None (world (init_state 0))
     = (Inl (Exception ''ModuleNotFoundError''), 0)
   \<and> preinstall_lib env_import_fails 1 ''pandas'' (init_state 0)
     = (Inr (), \<lparr>sessions = [], cleanup_task = None, world = 0,
                 trace = [Ev_run 1 ''import pandas'' None, Ev_run 1 ''!pip install -q pandas'' None]\<rparr>)
   \<and> sandbox_run env_ok 1 (''import '' @ replace_dash ''pandas'') None (world (init_state 0))
     = (Inr \<lparr>exit_code = 0, out_stdout = Some ''1'', out_stderr = None, images = None\<rparr>, 0)
   \<and> preinstall_lib env_ok 1 ''pandas'' (init_state 0)
     = (Inr (), \<lparr>sessions = [], cleanup_task = None, world = 0,
                 trace = [Ev_run 1 ''import pandas'' None]\<rparr>)
   \<and> map_of (sessions (init_state 0)) ''ws1'' = None
   \<and> LLM_SANDBOX_AVAILABLE env_import_fails
   \<and> fst (get_or_create_session env_import_fails ''ws1'' (init_state 0)) = Inr (ws_at ''ws1'' (Some 1) 0)
   \<and> preinstall env_pip_fails 1 DEFAULT_LIBRARIES (init_state 0)
     = (Inl (Exception ''no network''),
        \<lparr>sessions = [], cleanup_task = None, world = 0,
         trace = [Ev_run 1 ''import pandas'' None, Ev_run 1 ''!pip install -q pandas'' None]\<rparr>)
   \<and> fst (get_or_create_session env_pip_fails ''ws1'' (init_state 0)) = Inr (ws_at ''ws1'' None 0)"
  using warmup_outcomes [where env = env_import_fails and h = 1 and lib = "''pandas''"
      and s = "init_state 0" and libs = DEFAULT_LIBRARIES and k = "''ws1''",
      THEN conjunct2, THEN conjunct2]
    warmup_outcomes [where env = env_ok and h = 1 and lib = "''pandas''"
      and s = "init_state 0" and libs = DEFAULT_LIBRARIES and k = "''ws1''",
      THEN conjunct2, THEN conjunct2]
    warmup_outcomes [where env = env_pip_fails and h = 1 and lib = "''pandas''"
      and s = "init_state 0" and libs = DEFAULT_LIBRARIES and k = "''ws1''",
      THEN conjunct2, THEN conjunct2]
  by (simp add: run_defs env_ok_def env_import_fails_def env_pip_fails_def)

text \<open>
  C4 as stated fails where an installation raises: the session is registered without
  sandbox, the remaining libraries are skipped, and the failed import is not logged.
\<close>

theorem warmup_failure_counterexample:
  "get_or_create_session env_pip_fails ''ws1'' (init_state 0)
     = (Inr \<lparr>workspace_id = ''ws1'', session = None, created_at = 0, last_used = 0\<rparr>,
        \<lparr>sessions = [(''ws1'', \<lparr>workspace_id = ''ws1'', session = None, created_at = 0, last_used = 0\<rparr>)],
         cleanup_task = None, world = 0,
         trace = [Ev_log INFO ''Creating new sandbox session for workspace: ws1'', Ev_init, Ev_enter 1,
                  Ev_run 1 ''import pandas'' None, Ev_run 1 ''!pip install -q pandas'' None,
                  Ev_log ERROR ''Failed to create sandbox session: no network'']\<rparr>)"
  by (simp add: run_defs env_ok_def env_pip_fails_def)

text \<open>
  C5. When the body of the \<^verbatim>\<open>try\<close> raises while a session is created (the constructor, the
  entering or the warm-up failed), the failure is logged, and the new session is returned
  and stored under the workspace id without sandbox. In every later state that still holds a
  session without sandbox under that id, \<^verbatim>\<open>get_or_create_session\<close> returns that session,
  still without sandbox, and performs no action: neither the constructor nor any other call
  of the library is made, and nothing is logged.
\<close>

theorem provisioning_failure_registered:
  fixes env :: "'w env"
  assumes "map_of (sessions s) k = None" and "LLM_SANDBOX_AVAILABLE env"
    and "new_session_start env k s = (Inr ws0, s0)"
    and "create_sandbox env k ws0 s0 = (Inl e, s1)"
  shows "get_or_create_session env k s =
           (Inr (ws0\<lparr>session := None\<rparr>),
            s1\<lparr>sessions := AList.update k (ws0\<lparr>session := None\<rparr>) (sessions s1),
               trace := trace s1 @ [Ev_log ERROR (''Failed to create sandbox session: '' @ str_exn e)]\<rparr>)
         \<and> map_of (sessions (snd (get_or_create_session env k s))) k = Some (ws0\<lparr>session := None\<rparr>)
         \<and> (\<forall>s2 ws2. map_of (sessions s2) k = Some ws2 \<and> session ws2 = None \<longrightarrow>
               (\<exists>ws3 s3. get_or_create_session env k s2 = (Inr ws3, s3)
                  \<and> session ws3 = None \<and> map_of (sessions s3) k = Some ws3
                  \<and> trace s3 = trace s2))"
proof (intro conjI allI impI)
  show g: "get_or_create_session env k s =
           (Inr (ws0\<lparr>session := None\<rparr>),
            s1\<lparr>sessions := AList.update k (ws0\<lparr>session := None\<rparr>) (sessions s1),
               trace := trace s1 @ [Ev_log ERROR (''Failed to create sandbox session: '' @ str_exn e)]\<rparr>)"
    unfolding get_or_create_new [OF assms(1) assms(3)] using assms(2) assms(4) by simp
  show "map_of (sessions (snd (get_or_create_session env k s))) k = Some (ws0\<lparr>session := None\<rparr>)"
    unfolding g by (simp add: update_conv')
next
  fix s2 :: "'w state" and ws2
  assume a: "map_of (sessions s2) k = Some ws2 \<and> session ws2 = None"
  then have "get_or_create_session env k s2 = touch_at env k ws2 s2"
    by (simp add: get_or_create_session_def)
  then show "\<exists>ws3 s3. get_or_create_session env k s2 = (Inr ws3, s3)
      \<and> session ws3 = None \<and> map_of (sessions s3) k = Some ws3 \<and> trace s3 = trace s2"
    using a by (simp add: touch_at_apply update_conv')
qed

theorem provisioning_failure_registered_witness:
  "map_of (sessions (init_state 0)) ''ws3'' = None
   \<and> LLM_SANDBOX_AVAILABLE env_init_fails
   \<and> new_session_start env_init_fails ''ws3'' (init_state 0)
     = (Inr (ws_at ''ws3'' None 0),
        \<lparr>sessions = [], cleanup_task = None, world = 0,
         trace = [Ev_log INFO ''Creating new sandbox session for workspace: ws3'']\<rparr>)
   \<and> create_sandbox env_init_fails ''ws3'' (ws_at ''ws3'' None 0)
        \<lparr>sessions = [], cleanup_task = None, world = 0,
         trace = [Ev_log INFO ''Creating new sandbox session for workspace: ws3'']\<rparr>
     = (Inl (Exception ''docker unavailable''),
        \<lparr>sessions = [], cleanup_task = None, world = 0,
         trace = [Ev_log INFO ''Creating new sandbox session for workspace: ws3'', Ev_init]\<rparr>)
   \<and> get_or_create_session env_init_fails ''ws3'' (init_state 0)
     = (Inr (ws_at ''ws3'' None 0),
        \<lparr>sessions = [(''ws3'', ws_at ''ws3'' None 0)], cleanup_task = None, world = 0,
         trace = [Ev_log INFO ''Creating new sandbox session for workspace: ws3'', Ev_init,
                  Ev_log ERROR ''Failed to create sandbox session: docker unavailable'']\<rparr>)
   \<and> get_or_create_session env_init_fails ''ws3''
        \<lparr>sessions = [(''ws3'', ws_at ''ws3'' None 0)], cleanup_task = None, world = 4, trace = []\<rparr>
     = (Inr \<lparr>workspace_id = ''ws3'', session = None, created_at = 0, last_used = 4\<rparr>,
        \<lparr>sessions = [(''ws3'', \<lparr>workspace_id = ''ws3'', session = None, created_at = 0, last_used = 4\<rparr>)],
         cleanup_task = None, world = 4, trace = []\<rparr>)"
proof -
  have st: "new_session_start env_init_fails ''ws3'' (init_state 0)
     = (Inr (ws_at ''ws3'' None 0),
        \<lparr>sessions = [], cleanup_task = None, world = 0,
         trace = [Ev_log INFO ''Creating new sandbox session for workspace: ws3'']\<rparr>)"
    by (simp add: new_session_start_apply init_state_def ws_at_def env_init_fails_def env_ok_def)
  have cr: "create_sandbox env_init_fails ''ws3'' (ws_at ''ws3'' None 0)
        \<lparr>sessions = [], cleanup_task = None, world = 0,
         trace = [Ev_log INFO ''Creating new sandbox session for workspace: ws3'']\<rparr>
     = (Inl (Exception ''docker unavailable''),
        \<lparr>sessions = [], cleanup_task = None, world = 0,
         trace = [Ev_log INFO ''Creating new sandbox session for workspace: ws3'', Ev_init]\<rparr>)"
    by (simp add: create_sandbox_def bindP_def ext_call_def env_init_fails_def env_ok_def)
  have absent: "map_of (sessions (init_state 0 :: nat state)) ''ws3'' = None"
    by (simp add: init_state_def)
  have avail: "LLM_SANDBOX_AVAILABLE env_init_fails"
    by (simp add: env_init_fails_def env_ok_def)
  show ?thesis
    using provisioning_failure_registered [OF absent avail st cr] st cr
    by (simp add: get_or_create_session_def touch_at_apply init_state_def ws_at_def
        env_init_fails_def env_ok_def)
qed

subsection \<open>The cleanup loop\<close>

lemma is_expired_apply:
  "is_expired env ws s =
     (Inr (float_sub env (fst (time_time env (world s)))
             (last_used ws) > IDLE_TIMEOUT),
      s\<lparr>world := snd (time_time env (world s))\<rparr>)"
  by (simp add: is_expired_def bindP_def time_now_apply retP_def)

lemma expired_ids_apply:
  "\<exists>ids. expired_ids env items s =
            (Inr ids, s\<lparr>world := ((snd \<circ> time_time env) ^^ length items) (world s)\<rparr>)
     \<and> set ids \<subseteq> fst ` set items
     \<and> (distinct (map fst items) \<longrightarrow> distinct ids)
     \<and> (\<forall>i<length items.
           float_sub env (fst (time_time env (((snd \<circ> time_time env) ^^ i) (world s))))
             (last_used (snd (items ! i))) > IDLE_TIMEOUT
           \<longrightarrow> fst (items ! i) \<in> set ids)"
proof (induction items arbitrary: s)
  case Nil
  show ?case by (simp add: retP_def)
next
  case (Cons item items)
  obtain k ws where item: "item = (k, ws)" by (cases item)
  let ?s1 = "s\<lparr>world := snd (time_time env (world s))\<rparr>"
  let ?b = "float_sub env (fst (time_time env (world s)))
             (last_used ws) > IDLE_TIMEOUT"
  obtain ids where
    r: "expired_ids env items ?s1 =
          (Inr ids, ?s1\<lparr>world := ((snd \<circ> time_time env) ^^ length items) (world ?s1)\<rparr>)"
    and sub: "set ids \<subseteq> fst ` set items"
    and dist: "distinct (map fst items) \<longrightarrow> distinct ids"
    and ex: "\<forall>i<length items.
           float_sub env (fst (time_time env (((snd \<circ> time_time env) ^^ i) (world ?s1))))
             (last_used (snd (items ! i))) > IDLE_TIMEOUT
           \<longrightarrow> fst (items ! i) \<in> set ids"
    using Cons.IH [of ?s1] by blast
  let ?ids = "if ?b then k # ids else ids"
  have "expired_ids env (item # items) s =
      (Inr ?ids, s\<lparr>world := ((snd \<circ> time_time env) ^^ length (item # items)) (world s)\<rparr>)"
    using r by (simp add: item bindP_def is_expired_apply retP_def funpow_swap1)
  moreover have "set ?ids \<subseteq> fst ` set (item # items)"
    using sub by (auto simp: item)
  moreover have "distinct (map fst (item # items)) \<longrightarrow> distinct ?ids"
    using sub dist by (auto simp: item)
  moreover have "\<forall>i<length (item # items).
           float_sub env (fst (time_time env (((snd \<circ> time_time env) ^^ i) (world s))))
             (last_used (snd ((item # items) ! i))) > IDLE_TIMEOUT
           \<longrightarrow> fst ((item # items) ! i) \<in> set ?ids"
  proof (intro allI impI)
    fix i
    assume i: "i < length (item # items)"
      and e: "float_sub env (fst (time_time env (((snd \<circ> time_time env) ^^ i) (world s))))
                (last_used (snd ((item # items) ! i))) > IDLE_TIMEOUT"
    show "fst ((item # items) ! i) \<in> set ?ids"
    proof (cases i)
      case 0
      then show ?thesis using e by (simp add: item)
    next
      case (Suc j)
      then have "fst (items ! j) \<in> set ids"
        using ex i e by (simp add: funpow_swap1)
      then show ?thesis by (simp add: Suc)
    qed
  qed
  ultimately show ?case by blast
qed


lemma close_session_frame:
  "\<exists>w mid. close_session env ws s = (Inr (), s\<lparr>world := w, trace := trace s @ mid\<rparr>)
     \<and> (\<forall>h. session ws = Some h \<longrightarrow> Ev_exit h \<in> set mid)"
proof (cases "session ws")
  case None
  show ?thesis
    by (rule exI [of _ "world s"], rule exI [of _ "[]"]) (simp add: close_session_None None)
next
  case (Some h)
  show ?thesis
    unfolding close_session_Some [OF Some]
    by (intro exI conjI, rule refl) (simp add: Some)
qed

lemma keys_delete: "fst ` set (AList.delete k al) = fst ` set al - {k}"
proof -
  have "set (map fst (AList.delete k al)) = set (map fst al) - {k}"
    by (simp add: delete_keys)
  then show ?thesis by simp
qed

lemma filter_delete:
  "filter (\<lambda>p. fst p \<notin> set ids) (AList.delete k al) = filter (\<lambda>p. fst p \<notin> set (k # ids)) al"
  by (induction al) (auto simp: AList.delete_eq)

lemma cleanup_expired_apply:
  fixes env :: "'w env" and s :: "'w state"
  assumes "distinct ids" and "set ids \<subseteq> fst ` set (sessions s)"
  shows "\<exists>w mid. cleanup_expired env ids s =
           (Inr (), s\<lparr>sessions := filter (\<lambda>p. fst p \<notin> set ids) (sessions s),
                      world := w, trace := trace s @ mid\<rparr>)
         \<and> (\<forall>k\<in>set ids. \<forall>ws h. map_of (sessions s) k = Some ws \<and> session ws = Some h
               \<longrightarrow> Ev_exit h \<in> set mid)"
  using assms
proof (induction ids arbitrary: s)
  case Nil
  show ?case
    by (rule exI [of _ "world s"], rule exI [of _ "[]"]) (simp add: retP_def)
next
  case (Cons k ids)
  have kin: "k \<in> fst ` set (sessions s)" using Cons.prems by simp
  then obtain ws where ws: "map_of (sessions s) k = Some ws"
    by (metis domD dom_map_of_conv_image_fst)
  let ?s0 = "s\<lparr>trace := trace s @ [Ev_log INFO (''Cleaning up expired session: '' @ k)]\<rparr>"
  obtain w1 mid1 where c: "close_session env ws ?s0 = (Inr (), ?s0\<lparr>world := w1, trace := trace ?s0 @ mid1\<rparr>)"
    and x1: "\<forall>h. session ws = Some h \<longrightarrow> Ev_exit h \<in> set mid1"
    using close_session_frame [of env ws ?s0] by blast
  let ?s1 = "s\<lparr>sessions := AList.delete k (sessions s), world := w1,
               trace := trace s @ [Ev_log INFO (''Cleaning up expired session: '' @ k)] @ mid1\<rparr>"
  have l: "logger INFO (''Cleaning up expired session: '' @ k) s = (Inr (), ?s0)"
    by (simp add: logger_def)
  have g: "getitem k ?s0 = (Inr ws, ?s0)"
    using ws by (simp add: getitem_def)
  have dl: "delitem k (?s0\<lparr>world := w1, trace := trace ?s0 @ mid1\<rparr>) = (Inr (), ?s1)"
    using ws by (simp add: delitem_def)
  have step: "cleanup_expired env (k # ids) s = cleanup_expired env ids ?s1"
    by (simp only: cleanup_expired.simps bindP_def l g c dl prod.case sum.case)
  have d: "distinct ids" and notin: "k \<notin> set ids" using Cons.prems by simp_all
  have sub: "set ids \<subseteq> fst ` set (sessions ?s1)"
    using Cons.prems notin by (auto simp: keys_delete)
  obtain w2 mid2 where r: "cleanup_expired env ids ?s1 =
           (Inr (), ?s1\<lparr>sessions := filter (\<lambda>p. fst p \<notin> set ids) (sessions ?s1),
                       world := w2, trace := trace ?s1 @ mid2\<rparr>)"
    and x2: "\<forall>k'\<in>set ids. \<forall>ws h. map_of (sessions ?s1) k' = Some ws \<and> session ws = Some h
               \<longrightarrow> Ev_exit h \<in> set mid2"
    using Cons.IH [OF d sub] by blast
  have filt: "filter (\<lambda>p. fst p \<notin> set ids) (AList.delete k (sessions s))
      = filter (\<lambda>p. fst p \<notin> set (k # ids)) (sessions s)"
    by (rule filter_delete)
  let ?mid = "[Ev_log INFO (''Cleaning up expired session: '' @ k)] @ mid1 @ mid2"
  have "cleanup_expired env (k # ids) s =
      (Inr (), s\<lparr>sessions := filter (\<lambda>p. fst p \<notin> set (k # ids)) (sessions s),
                 world := w2, trace := trace s @ ?mid\<rparr>)"
    using step r filt by simp
  moreover have "\<forall>k'\<in>set (k # ids). \<forall>ws h. map_of (sessions s) k' = Some ws \<and> session ws = Some h
               \<longrightarrow> Ev_exit h \<in> set ?mid"
  proof (intro ballI allI impI)
    fix k' ws' h
    assume k': "k' \<in> set (k # ids)" and m: "map_of (sessions s) k' = Some ws' \<and> session ws' = Some h"
    show "Ev_exit h \<in> set ?mid"
    proof (cases "k' = k")
      case True
      then have "ws' = ws" using m ws by simp
      then show ?thesis using x1 m by simp
    next
      case False
      then have "k' \<in> set ids" using k' by simp
      moreover have "map_of (sessions ?s1) k' = Some ws'"
        using False m by simp
      ultimately show ?thesis using x2 m by auto
    qed
  qed
  ultimately show ?case by blast
qed








lemma cleanup_iteration_apply:
  fixes env :: "'w env" and s :: "'w state"
  assumes "distinct (map fst (sessions s))"
  shows "\<exists>ids w mid.
     cleanup_iteration env s =
       (Inr (), s\<lparr>sessions := filter (\<lambda>p. fst p \<notin> set ids) (sessions s), world := w,
                  trace := trace s @ Ev_sleep 60 # mid\<rparr>)
     \<and> (\<forall>j<length (sessions s).
           float_sub env (fst (time_time env (((snd \<circ> time_time env) ^^ j) (asyncio_sleep env 60 (world s)))))
             (last_used (snd (sessions s ! j))) > IDLE_TIMEOUT
           \<longrightarrow> fst (sessions s ! j) \<in> set ids)
     \<and> (\<forall>k\<in>set ids. \<forall>ws h. map_of (sessions s) k = Some ws \<and> session ws = Some h
           \<longrightarrow> Ev_exit h \<in> set mid)"
proof -
  let ?sa = "s\<lparr>world := asyncio_sleep env 60 (world s), trace := trace s @ [Ev_sleep 60]\<rparr>"
  have sl: "sleep_for env 60 s = (Inr (), ?sa)"
    by (simp add: sleep_for_def)
  obtain ids where
    e: "expired_ids env (sessions s) ?sa =
          (Inr ids, ?sa\<lparr>world := ((snd \<circ> time_time env) ^^ length (sessions s)) (world ?sa)\<rparr>)"
    and sub: "set ids \<subseteq> fst ` set (sessions s)"
    and dist: "distinct (map fst (sessions s)) \<longrightarrow> distinct ids"
    and ex: "\<forall>j<length (sessions s).
           float_sub env (fst (time_time env (((snd \<circ> time_time env) ^^ j) (world ?sa))))
             (last_used (snd (sessions s ! j))) > IDLE_TIMEOUT
           \<longrightarrow> fst (sessions s ! j) \<in> set ids"
    using expired_ids_apply [of env "sessions s" ?sa] by blast
  let ?sb = "?sa\<lparr>world := ((snd \<circ> time_time env) ^^ length (sessions s)) (world ?sa)\<rparr>"
  have d: "distinct ids" using dist assms by simp
  have sub': "set ids \<subseteq> fst ` set (sessions ?sb)" using sub by simp
  obtain w mid where
    c: "cleanup_expired env ids ?sb =
           (Inr (), ?sb\<lparr>sessions := filter (\<lambda>p. fst p \<notin> set ids) (sessions ?sb),
                       world := w, trace := trace ?sb @ mid\<rparr>)"
    and x: "\<forall>k\<in>set ids. \<forall>ws h. map_of (sessions ?sb) k = Some ws \<and> session ws = Some h
               \<longrightarrow> Ev_exit h \<in> set mid"
    using cleanup_expired_apply [OF d sub', of env] by blast
  let ?s' = "?sb\<lparr>sessions := filter (\<lambda>p. fst p \<notin> set ids) (sessions ?sb),
                 world := w, trace := trace ?sb @ mid\<rparr>"
  have e': "expired_ids env (sessions ?sa) ?sa = (Inr ids, ?sb)" using e by simp
  have "cleanup_iteration env s = (Inr (), ?s')"
    by (simp only: cleanup_iteration_def bindP_def sl e' c prod.case sum.case)
  moreover have "?s' = s\<lparr>sessions := filter (\<lambda>p. fst p \<notin> set ids) (sessions s), world := w,
                  trace := trace s @ Ev_sleep 60 # mid\<rparr>"
    by simp
  ultimately have "cleanup_iteration env s =
       (Inr (), s\<lparr>sessions := filter (\<lambda>p. fst p \<notin> set ids) (sessions s), world := w,
                  trace := trace s @ Ev_sleep 60 # mid\<rparr>)"
    by simp
  moreover have "\<forall>j<length (sessions s).
           float_sub env (fst (time_time env (((snd \<circ> time_time env) ^^ j) (asyncio_sleep env 60 (world s)))))
             (last_used (snd (sessions s ! j))) > IDLE_TIMEOUT
           \<longrightarrow> fst (sessions s ! j) \<in> set ids"
    using ex by simp
  moreover have "\<forall>k\<in>set ids. \<forall>ws h. map_of (sessions s) k = Some ws \<and> session ws = Some h
           \<longrightarrow> Ev_exit h \<in> set mid"
    using x by simp
  ultimately show ?thesis by blast
qed



subsection \<open>One session per workspace\<close>

lemma set_update_subset: "set (AList.update k v al) \<subseteq> insert (k, v) (set al)"
  by (induction al) auto

lemma keyed_update:
  assumes "keyed d" and "workspace_id ws = k"
  shows "keyed (AList.update k ws d)"
  using assms set_update_subset [of k ws d]
  unfolding keyed_def by (auto simp: distinct_update)

lemma keyed_filter: "keyed d \<Longrightarrow> keyed (filter P d)"
  unfolding keyed_def by (auto simp: distinct_map_filter)

lemma keyed_delete: "keyed d \<Longrightarrow> keyed (AList.delete k d)"
  unfolding AList.delete_eq by (rule keyed_filter)

lemma keyed_lookup: "keyed d \<Longrightarrow> map_of d k = Some ws \<Longrightarrow> workspace_id ws = k"
  unfolding keyed_def by (auto dest: map_of_SomeD)

lemma preinstall_lib_sessions: "sessions (snd (preinstall_lib env h lib s)) = sessions s"
  by (simp add: preinstall_lib_def tryP_def bindP_def run_in_def ext_call_def retP_def
      split: prod.splits sum.splits)

lemma preinstall_sessions: "sessions (snd (preinstall env h libs s)) = sessions s"
proof (induction libs arbitrary: s)
  case Nil
  show ?case by (simp add: retP_def)
next
  case (Cons lib libs)
  obtain r s1 where step: "preinstall_lib env h lib s = (r, s1)"
    by (cases "preinstall_lib env h lib s")
  have s1: "sessions s1 = sessions s"
    using preinstall_lib_sessions [of env h lib s] step by simp
  show ?case
    using step s1 Cons.IH [of s1] by (cases r) (simp_all add: bindP_def)
qed

lemma create_sandbox_sessions:
  "sessions (snd (create_sandbox env k ws0 s0)) = sessions s0
   \<and> (\<forall>ws1. fst (create_sandbox env k ws0 s0) = Inr ws1 \<longrightarrow> workspace_id ws1 = workspace_id ws0)"
proof (cases "sandbox_init env (world s0)")
  case (Pair ri w1)
  show ?thesis
  proof (cases ri)
    case (Inl e)
    then show ?thesis
      using Pair by (simp add: create_sandbox_def bindP_def ext_call_def)
  next
    case (Inr h)
    note init = Pair [unfolded Inr]
    obtain re w2 where enter: "sandbox_enter env h w1 = (re, w2)"
      by (cases "sandbox_enter env h w1")
    show ?thesis
    proof (cases re)
      case (Inl e)
      then show ?thesis
        using init enter by (simp add: create_sandbox_def bindP_def ext_call_def)
    next
      case (Inr u)
      let ?s2 = "s0\<lparr>world := w2, trace := trace s0 @ [Ev_init, Ev_enter h]\<rparr>"
      obtain rp s3 where pre: "preinstall env h DEFAULT_LIBRARIES ?s2 = (rp, s3)"
        by (cases "preinstall env h DEFAULT_LIBRARIES ?s2")
      have s3: "sessions s3 = sessions s0"
        using preinstall_sessions [of env h DEFAULT_LIBRARIES ?s2] pre by simp
      have enter': "sandbox_enter env h w1 = (Inr (), w2)"
        using enter Inr by simp
      show ?thesis
        unfolding create_sandbox_apply [OF init enter'] pre
        using s3 by (cases rp) simp_all
    qed
  qed
qed


lemma get_or_create_keyed:
  assumes "keyed (sessions s)"
  shows "keyed (sessions (snd (get_or_create_session env k s)))"
proof (cases "map_of (sessions s) k")
  case (Some ws)
  have "get_or_create_session env k s = touch_at env k ws s"
    using Some by (simp add: get_or_create_session_def)
  moreover have "workspace_id ws = k"
    using assms Some by (rule keyed_lookup)
  ultimately show ?thesis
    using assms by (simp add: touch_at_apply keyed_update)
next
  case None
  obtain ws0 s0 where st: "new_session_start env k s = (Inr ws0, s0)"
    and ws0: "workspace_id ws0 = k" and s0: "sessions s0 = sessions s"
    using new_session_start_apply [of env k s] by simp
  obtain r s1 where cr: "create_sandbox env k ws0 s0 = (r, s1)"
    by (cases "create_sandbox env k ws0 s0")
  have s1: "sessions s1 = sessions s"
    using create_sandbox_sessions [of env k ws0 s0] cr s0 by simp
  have r: "\<And>ws1. r = Inr ws1 \<Longrightarrow> workspace_id ws1 = k"
    using create_sandbox_sessions [of env k ws0 s0] cr ws0 by simp
  show ?thesis
    unfolding get_or_create_new [OF None st] cr
    using assms s0 s1 ws0 r by (cases r) (simp_all add: keyed_update)
qed

lemma execute_keyed:
  assumes "keyed (sessions s)"
  shows "keyed (sessions (snd (execute env k code timeout s)))"
proof -
  obtain ws s1 where g: "get_or_create_session env k s = (Inr ws, s1)"
    and reg: "map_of (sessions s1) k = Some ws"
    using get_or_create_returns [of env k s] by blast
  have k1: "keyed (sessions s1)"
    using get_or_create_keyed [OF assms, of env k] g by simp
  have wk: "workspace_id ws = k"
    using k1 reg by (rule keyed_lookup)
  show ?thesis
  proof (cases "session ws")
    case None
    show ?thesis
      unfolding execute_unfold [OF g] fallback_apply
      using k1 None by (simp split: prod.splits)
  next
    case (Some h)
    show ?thesis
      unfolding execute_unfold [OF g]
      using k1 Some wk by (simp add: keyed_update split: prod.splits sum.splits)
  qed
qed

lemma destroy_keyed:
  assumes "keyed (sessions s)"
  shows "keyed (sessions (snd (destroy_session env k s)))"
proof (cases "map_of (sessions s) k")
  case None
  then show ?thesis using assms by (simp add: destroy_session_absent)
next
  case (Some ws)
  obtain w mid where "close_session env ws s = (Inr (), s\<lparr>world := w, trace := trace s @ mid\<rparr>)"
    using close_session_frame [of env ws s] by blast
  then show ?thesis
    using assms by (simp add: destroy_session_present [OF Some] keyed_delete)
qed

lemma stop_sessions: "sessions (snd (stop env s)) = []"
proof -
  obtain s1 where c: "cancel_cleanup_task s = (Inr (), s1)"
    by (cases "cleanup_task s") (simp_all add: cancel_cleanup_task_def)
  obtain w mid where
    closes: "close_all env (map snd (sessions s1)) s1 = (Inr (), s1\<lparr>world := w, trace := trace s1 @ mid\<rparr>)"
    using close_all_trace [of env "map snd (sessions s1)" s1] by blast
  show ?thesis
    using c closes by (simp add: stop_def bindP_def logger_def)
qed

lemma cleanup_iteration_keyed:
  assumes "keyed (sessions s)"
  shows "keyed (sessions (snd (cleanup_iteration env s)))"
proof -
  have "distinct (map fst (sessions s))" using assms by (simp add: keyed_def)
  then obtain ids w mid where "cleanup_iteration env s =
       (Inr (), s\<lparr>sessions := filter (\<lambda>p. fst p \<notin> set ids) (sessions s), world := w,
                  trace := trace s @ Ev_sleep 60 # mid\<rparr>)"
    using cleanup_iteration_apply [of s env] by blast
  then show ?thesis using assms by (simp add: keyed_filter)
qed

lemma reachable_keyed: "reachable env s \<Longrightarrow> keyed (sessions s)"
proof (induction rule: reachable.induct)
  case (created w)
  show ?case by (simp add: init_state_def keyed_def)
next
  case (started s)
  then show ?case by (simp add: start_def bindP_def logger_def)
next
  case (stopped s)
  show ?case by (simp add: stop_sessions keyed_def)
next
  case (cleaned s)
  then show ?case by (simp add: cleanup_iteration_keyed)
next
  case (requested s k)
  then show ?case by (simp add: get_or_create_keyed)
next
  case (executed s k code timeout)
  then show ?case by (simp add: execute_keyed)
next
  case (destroyed s k)
  then show ?case by (simp add: destroy_keyed)
qed


text \<open>
  C3. In every state of a running manager the dict holds no workspace id twice, and every
  session is stored under its own workspace id. Two requests for the same id, served one
  after the other from such a state (as the event loop serves requests that arrive
  together), give one session: the second returns the record of the first with only
  \<^verbatim>\<open>last_used\<close> renewed (same sandbox, same creation time), adds no key, and performs no
  action, so no second sandbox is constructed.
\<close>

theorem one_session_per_workspace:
  fixes env :: "'w env"
  assumes "reachable env s"
  shows "distinct (map fst (sessions s))
     \<and> (\<forall>p\<in>set (sessions s). workspace_id (snd p) = fst p)
     \<and> (\<forall>k. \<exists>ws1 s1 ws2 s2.
           get_or_create_session env k s = (Inr ws1, s1)
           \<and> get_or_create_session env k s1 = (Inr ws2, s2)
           \<and> ws2 = ws1\<lparr>last_used := last_used ws2\<rparr>
           \<and> map fst (sessions s2) = map fst (sessions s1)
           \<and> distinct (map fst (sessions s2))
           \<and> trace s2 = trace s1)"
proof (intro conjI allI)
  have k: "keyed (sessions s)" using assms by (rule reachable_keyed)
  then show "distinct (map fst (sessions s))" by (simp add: keyed_def)
  show "\<forall>p\<in>set (sessions s). workspace_id (snd p) = fst p"
    using k by (simp add: keyed_def)
  fix k
  obtain ws1 s1 where g1: "get_or_create_session env k s = (Inr ws1, s1)"
    and reg: "map_of (sessions s1) k = Some ws1"
    using get_or_create_returns [of env k s] by blast
  have "reachable env (snd (get_or_create_session env k s))"
    using assms by (rule reachable.requested)
  then have k1: "keyed (sessions s1)"
    using g1 reachable_keyed by fastforce
  have kin: "k \<in> fst ` set (sessions s1)"
    using reg by (metis domI dom_map_of_conv_image_fst)
  define ws2 where "ws2 = ws1\<lparr>last_used := fst (time_time env (world s1))\<rparr>"
  define s2 where "s2 = s1\<lparr>world := snd (time_time env (world s1)),
                            sessions := AList.update k ws2 (sessions s1)\<rparr>"
  have "get_or_create_session env k s1 = touch_at env k ws1 s1"
    using reg by (simp add: get_or_create_session_def)
  then have g2: "get_or_create_session env k s1 = (Inr ws2, s2)"
    by (simp add: touch_at_apply ws2_def s2_def)
  have same: "ws2 = ws1\<lparr>last_used := last_used ws2\<rparr>"
    by (simp add: ws2_def)
  have keys: "map fst (sessions s2) = map fst (sessions s1)"
    using kin by (simp add: s2_def update_keys)
  have d2: "distinct (map fst (sessions s2))"
    using keys k1 by (simp add: keyed_def)
  have tr: "trace s2 = trace s1"
    by (simp add: s2_def)
  show "\<exists>ws1 s1 ws2 s2.
           get_or_create_session env k s = (Inr ws1, s1)
           \<and> get_or_create_session env k s1 = (Inr ws2, s2)
           \<and> ws2 = ws1\<lparr>last_used := last_used ws2\<rparr>
           \<and> map fst (sessions s2) = map fst (sessions s1)
           \<and> distinct (map fst (sessions s2))
           \<and> trace s2 = trace s1"
    using g1 g2 same keys d2 tr by blast
qed

theorem one_session_per_workspace_witness:
  "reachable env_init_fails after_first_request
   \<and> sessions after_first_request = [(''ws1'', ws_at ''ws1'' None 0)]
   \<and> distinct (map fst (sessions after_first_request))
   \<and> get_or_create_session env_init_fails ''ws1'' after_first_request
     = (Inr (ws_at ''ws1'' None 0), after_first_request)"
proof -
  have r: "reachable env_init_fails after_first_request"
    unfolding after_first_request_def by (intro reachable.requested reachable.created)
  have v: "after_first_request =
      \<lparr>sessions = [(''ws1'', ws_at ''ws1'' None 0)], cleanup_task = None, world = 0,
       trace = [Ev_log INFO ''Creating new sandbox session for workspace: ws1'', Ev_init,
                Ev_log ERROR ''Failed to create sandbox session: docker unavailable'']\<rparr>"
    by (simp add: after_first_request_def run_defs env_ok_def env_init_fails_def)
  have g: "get_or_create_session env_init_fails ''ws1'' after_first_request
     = (Inr (ws_at ''ws1'' None 0), after_first_request)"
    unfolding v by (simp add: get_or_create_session_def touch_at_apply ws_at_def env_ok_def env_init_fails_def)
  show ?thesis
    using one_session_per_workspace [OF r] r g by (simp add: v)
qed

end
